theory Spec2Isabelle
  imports Complex_Main "HOL-Library.Sublist" "HOL-Library.List_Lexorder" "HOL-Library.Char_ord"
begin

section \<open>Tables\<close>

text \<open>
  The program of \<^verbatim>\<open>src/data_preprocessing.py\<close> works on pandas data frames. A cell is a
  number, a string or the missing value; numbers are rationals, which covers every finite
  value of the integer and floating-point column types and makes the comparisons with the
  integer bounds of the program exact. A table has its column labels in order and its rows
  in order; a row gives the cell of every column label and is \<open>NaN\<close> at every label that
  is not a column of its table. Column labels of a table are taken to be pairwise different,
  as they are in every frame that the file reader returns; the frames of the loader, in
  which a label can occur twice, are modelled further down.
\<close>

datatype cell = is_Num: Num rat | is_Str: Str string | is_NaN: NaN

type_synonym row = "string \<Rightarrow> cell"

record table =
  cols :: "string list"
  rows :: "row list"

datatype error = KeyError string | TypeError | AttributeError | ValueError | InvalidIndexError

definition column :: "table \<Rightarrow> string \<Rightarrow> error + cell list" where
  \<comment> \<open>\<^verbatim>\<open>df[c]\<close>: the cells of one column, or \<^verbatim>\<open>KeyError\<close> when there is no such column\<close>
  "column df c = (if c \<in> set (cols df) then Inr (map (\<lambda>r. r c) (rows df)) else Inl (KeyError c))"

definition select_cols :: "string list \<Rightarrow> table \<Rightarrow> table" where
  \<comment> \<open>\<^verbatim>\<open>df[labels]\<close> for a list of labels that are all columns of \<open>df\<close>\<close>
  "select_cols labels df =
     \<lparr>cols = labels, rows = map (\<lambda>r c. if c \<in> set labels then r c else NaN) (rows df)\<rparr>"

definition set_column :: "string \<Rightarrow> (row \<Rightarrow> cell) \<Rightarrow> table \<Rightarrow> table" where
  \<comment> \<open>\<^verbatim>\<open>df[c] = values\<close>: an existing column is overwritten in place, a new one is appended\<close>
  "set_column c f df =
     \<lparr>cols = (if c \<in> set (cols df) then cols df else cols df @ [c]),
      rows = map (\<lambda>r. r(c := f r)) (rows df)\<rparr>"

definition boolean_index :: "table \<Rightarrow> bool list \<Rightarrow> table" where
  \<comment> \<open>\<^verbatim>\<open>df[mask]\<close> for a boolean mask with one entry per row\<close>
  "boolean_index df bmask = df\<lparr>rows := map fst (filter snd (zip (rows df) bmask))\<rparr>"

definition first_occurrences :: "string list \<Rightarrow> string list" where
  "first_occurrences xs = rev (remdups (rev xs))"

definition pd_concat :: "table list \<Rightarrow> error + table" where
  \<comment> \<open>\<^verbatim>\<open>pd.concat(frames, ignore_index=True)\<close>: the rows of the frames one after another.
      Frames that all have the same column index keep it; otherwise the result has the
      union of their columns in order of first appearance, and a frame's rows are missing
      at the columns it lacks. No frames at all is a \<^verbatim>\<open>ValueError\<close>.\<close>
  "pd_concat frames =
     (case frames of
        [] \<Rightarrow> Inl ValueError
      | f # fs \<Rightarrow>
          Inr \<lparr>cols = (if list_all (\<lambda>g. cols g = cols f) fs then cols f
                       else first_occurrences (concat (map cols frames))),
               rows = concat (map rows frames)\<rparr>)"

section \<open>Strings\<close>

fun startswith :: "string \<Rightarrow> string \<Rightarrow> bool" where
  "startswith s [] = True"
| "startswith [] (p # ps) = False"
| "startswith (c # cs) (p # ps) = (c = p \<and> startswith cs ps)"

definition endswith :: "string \<Rightarrow> string \<Rightarrow> bool" where
  "endswith s e = startswith (rev s) (rev e)"

fun str_contains :: "string \<Rightarrow> string \<Rightarrow> bool" where
  \<comment> \<open>a search for a literal pattern anywhere in the string\<close>
  "str_contains [] p = (p = [])"
| "str_contains (c # cs) p = (startswith (c # cs) p \<or> str_contains cs p)"

definition is_digit :: "char \<Rightarrow> bool" where
  "is_digit c = (c \<in> set ''0123456789'')"

fun extract_year :: "string \<Rightarrow> string option" where
  \<comment> \<open>the first match of the regular expression \<^verbatim>\<open>(20\d{2})\<close>\<close>
  "extract_year (a # b # c # d # rest) =
     (if a = CHR ''2'' \<and> b = CHR ''0'' \<and> is_digit c \<and> is_digit d then Some [a, b, c, d]
      else extract_year (b # c # d # rest))"
| "extract_year _ = None"

definition str_accessor_ok :: "cell list \<Rightarrow> bool" where
  \<comment> \<open>\<^verbatim>\<open>series.str\<close> raises \<^verbatim>\<open>AttributeError\<close> on a column whose values are numbers
      only, missing values aside. It passes on a column that holds a string, and on a
      column of objects that holds no value or missing values only; a column without
      numbers and without strings is read as such a column of objects, as \<open>source_file\<close>
      is wherever the program makes it.\<close>
  "str_accessor_ok cells = (list_ex is_Str cells \<or> \<not> list_ex is_Num cells)"

definition str_extract_year :: "cell \<Rightarrow> cell" where
  \<comment> \<open>\<^verbatim>\<open>.str.extract(r"(20\d{2})")\<close> on one cell: missing when the cell is no string or
      the pattern does not occur\<close>
  "str_extract_year c =
     (case c of Str s \<Rightarrow> (case extract_year s of Some y \<Rightarrow> Str y | None \<Rightarrow> NaN) | _ \<Rightarrow> NaN)"

definition str_contains_years :: "cell \<Rightarrow> bool option" where
  \<comment> \<open>\<^verbatim>\<open>.str.contains("2021|2022|2023")\<close> on one cell: \<open>None\<close> is the missing value that
      pandas gives for a cell that is no string\<close>
  "str_contains_years c =
     (case c of Str s \<Rightarrow> Some (str_contains s ''2021'' \<or> str_contains s ''2022'' \<or> str_contains s ''2023'')
      | _ \<Rightarrow> None)"

section \<open>The column/value filter\<close>

definition prefixes :: "string list" where
  "prefixes = [''ALC'', ''ALD'', ''UAD'', ''AGE'', ''FILEDATE'', ''IRSEX'', ''source_file'', ''AL30'']"

definition startswith_any :: "string \<Rightarrow> string list \<Rightarrow> bool" where
  \<comment> \<open>\<^verbatim>\<open>col.startswith(tuple)\<close>\<close>
  "startswith_any s ps = list_ex (startswith s) ps"

definition alcever_1_or_2 :: "row \<Rightarrow> bool" where
  \<comment> \<open>\<^verbatim>\<open>(df["ALCEVER"] == 1) | (df["ALCEVER"] == 2)\<close> on one row; equality with a number is
      false for a string and for the missing value\<close>
  "alcever_1_or_2 r = (r ''ALCEVER'' = Num 1 \<or> r ''ALCEVER'' = Num 2)"

definition filter_cols :: "table \<Rightarrow> error + table" where
  "filter_cols df =
     (let filtered_columns = filter (\<lambda>col. startswith_any col prefixes) (cols df);
          df_filtered = select_cols filtered_columns df
      in case column df_filtered ''source_file'' of
           Inl e \<Rightarrow> Inl e
         | Inr src \<Rightarrow>
             if \<not> str_accessor_ok src then Inl AttributeError
             else
               (let df_year = set_column ''year'' (\<lambda>r. str_extract_year (r ''source_file'')) df_filtered
                in (case column df_year ''ALCEVER'' of
                      Inl e \<Rightarrow> Inl e
                    | Inr alc \<Rightarrow> Inr (boolean_index df_year (map alcever_1_or_2 (rows df_year))))))"

definition kept_row :: "table \<Rightarrow> row \<Rightarrow> row" where
  \<comment> \<open>what the column/value filter makes of an input row that it keeps: the cells of the
      columns with a recognised prefix, and the derived \<open>year\<close>\<close>
  "kept_row df r =
     (\<lambda>c. if c \<in> set (filter (\<lambda>col. startswith_any col prefixes) (cols df)) then r c else NaN)
       (''year'' := str_extract_year (r ''source_file''))"


section \<open>The age filter\<close>

definition series_between :: "rat \<Rightarrow> rat \<Rightarrow> cell list \<Rightarrow> error + bool list" where
  \<comment> \<open>\<^verbatim>\<open>series.between(left, right)\<close>, that is \<^verbatim>\<open>(series >= left) & (series <= right)\<close>:
      false at a missing value; ordering a string against a number is a \<^verbatim>\<open>TypeError\<close>\<close>
  "series_between left right cells =
     (if list_ex is_Str cells then Inl TypeError
      else Inr (map (\<lambda>c. case c of Num x \<Rightarrow> left \<le> x \<and> x \<le> right | _ \<Rightarrow> False) cells))"

definition mask_and :: "bool option list \<Rightarrow> bool list \<Rightarrow> bool list" where
  \<comment> \<open>\<^verbatim>\<open>mask & other\<close>, entry by entry; a missing entry of the mask counts as false\<close>
  "mask_and m b = map (\<lambda>(x, y). (case x of Some t \<Rightarrow> t \<and> y | None \<Rightarrow> False)) (zip m b)"

definition mask_not :: "bool option list \<Rightarrow> error + bool option list" where
  \<comment> \<open>\<^verbatim>\<open>~mask\<close>: a mask that holds a missing entry is a column of objects, and
      inverting the missing value is a \<^verbatim>\<open>TypeError\<close>\<close>
  "mask_not m = (if list_ex (\<lambda>x. x = None) m then Inl TypeError else Inr (map (map_option Not) m))"

definition filter_age :: "table \<Rightarrow> error + table" where
  "filter_age df =
     (case column df ''source_file'' of
        Inl e \<Rightarrow> Inl e
      | Inr src \<Rightarrow>
          if \<not> str_accessor_ok src then Inl AttributeError
          else
            (let recent_mask = map str_contains_years src
             in (case column df ''AGE'' of
                   Inl e \<Rightarrow> Inl e
                 | Inr age \<Rightarrow>
                     (case series_between 4 7 age of
                        Inl e \<Rightarrow> Inl e
                      | Inr young \<Rightarrow>
                          (let subset_recent = boolean_index df (mask_and recent_mask young)
                           in (case mask_not recent_mask of
                                 Inl e \<Rightarrow> Inl e
                               | Inr other_mask \<Rightarrow>
                                   (case series_between 7 13 age of
                                      Inl e \<Rightarrow> Inl e
                                    | Inr old \<Rightarrow>
                                        (let subset_older = boolean_index df (mask_and other_mask old)
                                         in pd_concat [subset_recent, subset_older]))))))))"

definition recent :: "row \<Rightarrow> bool" where
  \<comment> \<open>the row's \<open>source_file\<close> is a string that contains 2021, 2022 or 2023\<close>
  "recent r = (str_contains_years (r ''source_file'') = Some True)"

definition age_within :: "rat \<Rightarrow> rat \<Rightarrow> row \<Rightarrow> bool" where
  "age_within left right r = (case r ''AGE'' of Num x \<Rightarrow> left \<le> x \<and> x \<le> right | _ \<Rightarrow> False)"

definition survives_age :: "row \<Rightarrow> bool" where
  "survives_age r = (if recent r then age_within 4 7 r else age_within 7 13 r)"


section \<open>Frames with repeated labels\<close>

text \<open>
  The file reader returns frames with pairwise different labels, but the loader renames
  the age column, and a file that has an alias of the age column beside a column already
  named \<open>AGE\<close> then carries the label \<open>AGE\<close> twice. The loader is therefore modelled on
  frames in which a label may occur more than once: a frame has its labels in order and,
  for every row, a line of the cells in the order of the labels, each cell paired with its
  label. A frame with pairwise different labels is a table: the row of a line gives, for a
  label, the cell paired with it, and is missing at every other label.
\<close>

type_synonym line = "(string \<times> cell) list"

record frame =
  labels :: "string list"
  lines :: "line list"

definition mk_row :: "line \<Rightarrow> row" where
  "mk_row kvs = (\<lambda>c. case map_of kvs c of Some v \<Rightarrow> v | None \<Rightarrow> NaN)"

definition frame_of :: "table \<Rightarrow> frame" where
  "frame_of df = \<lparr>labels = cols df, lines = map (\<lambda>r. map (\<lambda>c. (c, r c)) (cols df)) (rows df)\<rparr>"

definition table_of :: "frame \<Rightarrow> table" where
  "table_of fr = \<lparr>cols = labels fr, rows = map mk_row (lines fr)\<rparr>"

definition empty_frame :: frame where
  \<comment> \<open>\<^verbatim>\<open>pd.DataFrame()\<close>\<close>
  "empty_frame = \<lparr>labels = [], lines = []\<rparr>"

definition assign_column :: "string \<Rightarrow> cell \<Rightarrow> frame \<Rightarrow> frame" where
  \<comment> \<open>\<^verbatim>\<open>df[c] = value\<close> for one value: every column labelled \<open>c\<close> is overwritten in place;
      when there is none, a new column is appended\<close>
  "assign_column c v fr =
     (if c \<in> set (labels fr)
      then fr\<lparr>lines := map (map (\<lambda>(k, x). (k, if k = c then v else x))) (lines fr)\<rparr>
      else \<lparr>labels = labels fr @ [c], lines = map (\<lambda>l. l @ [(c, v)]) (lines fr)\<rparr>)"

definition rename_label :: "string \<Rightarrow> string \<Rightarrow> frame \<Rightarrow> frame" where
  \<comment> \<open>\<^verbatim>\<open>df.rename(columns={old: new})\<close>: only the label changes, also when \<open>new\<close> is
      already the label of another column\<close>
  "rename_label old new fr =
     \<lparr>labels = map (\<lambda>k. if k = old then new else k) (labels fr),
      lines = map (map (\<lambda>(k, x). (if k = old then new else k, x))) (lines fr)\<rparr>"

definition select_labels :: "string list \<Rightarrow> frame \<Rightarrow> frame" where
  \<comment> \<open>\<^verbatim>\<open>df[keys]\<close> for a list of labels that all occur in \<open>df\<close>: for each key in turn, every
      column that carries it\<close>
  "select_labels keys fr =
     \<lparr>labels = concat (map (\<lambda>key. filter (\<lambda>k. k = key) (labels fr)) keys),
      lines = map (\<lambda>l. concat (map (\<lambda>key. filter (\<lambda>(k, x). k = key) l) keys)) (lines fr)\<rparr>"

definition reindex_line :: "string list \<Rightarrow> line \<Rightarrow> line" where
  \<comment> \<open>a line brought under other labels: missing where the line has no such label\<close>
  "reindex_line ls l = map (\<lambda>k. (k, mk_row l k)) ls"

definition concat_frames :: "frame list \<Rightarrow> error + frame" where
  \<comment> \<open>\<^verbatim>\<open>pd.concat(frames, ignore_index=True)\<close>: the rows of the frames one after another.
      Frames that all have the same labels keep them. Otherwise the result has the union of
      the labels in order of first appearance and every frame is brought under it, which
      pandas refuses for a frame with a repeated label (\<^verbatim>\<open>InvalidIndexError\<close>). No frames
      at all is a \<^verbatim>\<open>ValueError\<close>.\<close>
  "concat_frames frames =
     (case frames of
        [] \<Rightarrow> Inl ValueError
      | f # fs \<Rightarrow>
          if list_all (\<lambda>g. labels g = labels f) fs
          then Inr \<lparr>labels = labels f, lines = concat (map lines frames)\<rparr>
          else if list_ex (\<lambda>g. \<not> distinct (labels g)) frames then Inl InvalidIndexError
          else (let ls = first_occurrences (concat (map labels frames))
                in Inr \<lparr>labels = ls,
                        lines = concat (map (\<lambda>g. map (reindex_line ls) (lines g)) frames)\<rparr>))"

section \<open>The loader\<close>

text \<open>
  The directory is given by its listing: the entry names in the order of \<^verbatim>\<open>os.listdir\<close>,
  each with what \<^verbatim>\<open>pd.read_csv\<close> does on that file, which is either the text of the
  exception it raises or the frame it returns, a table. \<^verbatim>\<open>list(s)\<close> of a Python set \<open>s\<close>
  enumerates the set in an order that the language leaves open; the order is a parameter
  \<open>set_list\<close> of the loader, and \<open>set_list_ok\<close> says that it enumerates each finite set
  without repetition.
\<close>

type_synonym dir_entry = "string \<times> (string + table)"

record loader_state =
  dfs :: "frame list"
  common_cols :: "string set option"
  printed :: "string list"

definition set_list_ok :: "(string set \<Rightarrow> string list) \<Rightarrow> bool" where
  "set_list_ok set_list = (\<forall>S. finite S \<longrightarrow> set (set_list S) = S \<and> distinct (set_list S))"

definition age_column_candidates :: "string list" where
  "age_column_candidates = [''AGE2'', ''AGE3'']"

fun rename_age :: "string list \<Rightarrow> frame \<Rightarrow> frame" where
  \<comment> \<open>the loop over the candidates, left at the first one that is a column\<close>
  "rename_age [] df = df"
| "rename_age (age_col # rest) df =
     (if age_col \<in> set (labels df) then rename_label age_col ''AGE'' df else rename_age rest df)"

definition harmonise :: "string \<Rightarrow> table \<Rightarrow> frame" where
  \<comment> \<open>a frame that was read, tagged with its file name and with its age column renamed\<close>
  "harmonise file df0 =
     rename_age age_column_candidates (assign_column ''source_file'' (Str file) (frame_of df0))"

definition read_file :: "string \<Rightarrow> string + table \<Rightarrow> loader_state \<Rightarrow> loader_state" where
  \<comment> \<open>the body of the \<^verbatim>\<open>try\<close> and its handler\<close>
  "read_file file res st =
     (case res of
        Inl e \<Rightarrow> st\<lparr>printed := printed st @ [''Failed to read '' @ file @ '': '' @ e]\<rparr>
      | Inr df0 \<Rightarrow>
          (let df = harmonise file df0;
               cs = set (labels df) - {''source_file''}
           in st\<lparr>dfs := dfs st @ [df],
                 common_cols := Some (case common_cols st of None \<Rightarrow> cs | Some cc \<Rightarrow> cc \<inter> cs)\<rparr>))"

fun scan :: "dir_entry list \<Rightarrow> loader_state \<Rightarrow> loader_state" where
  \<comment> \<open>the loop over the directory listing\<close>
  "scan [] st = st"
| "scan ((file, res) # entries) st =
     scan entries
       (if endswith file ''.txt'' \<or> endswith file ''.tsv'' then read_file file res st else st)"

definition combine_common_columns_with_age ::
    "(string set \<Rightarrow> string list) \<Rightarrow> dir_entry list \<Rightarrow> string list \<times> (error + frame)" where
  \<comment> \<open>returns what was printed and the frame (or the exception). The test is
      \<^verbatim>\<open>not dfs or not common_cols\<close>: \<^verbatim>\<open>None\<close> and the empty set both count as false.
      The concatenation stands outside the \<^verbatim>\<open>try\<close>: its exception leaves the loader.\<close>
  "combine_common_columns_with_age set_list entries =
     (let st = scan entries \<lparr>dfs = [], common_cols = None, printed = []\<rparr>
      in if dfs st = [] \<or> (case common_cols st of None \<Rightarrow> True | Some cc \<Rightarrow> cc = {})
         then (printed st @ [''No compatible files found.''], Inr empty_frame)
         else
           (case common_cols st of
              None \<Rightarrow> (printed st, Inl TypeError)
            | Some cc \<Rightarrow>
                (let final_cols = set_list (cc \<union> {''AGE'', ''source_file''});
                     final_dfs = map (\<lambda>df. select_labels (filter (\<lambda>col. col \<in> set (labels df)) final_cols) df)
                                     (dfs st)
                 in (printed st, concat_frames final_dfs))))"

section \<open>The orchestrator\<close>

definition filter_age_frame :: "frame \<Rightarrow> error + table" where
  \<comment> \<open>\<open>filter_age\<close> on the frame that the loader returns. A frame in which \<open>source_file\<close>
      and \<open>AGE\<close> occur at most once goes through \<open>filter_age\<close> as a table. Where one of them
      occurs twice, its lookup gives a frame and not a column, and a frame has neither
      \<^verbatim>\<open>.str\<close> nor \<^verbatim>\<open>.between\<close>: an \<^verbatim>\<open>AttributeError\<close>, unless the lookup of a missing
      \<open>source_file\<close> has raised before. (Frames from the reader have pairwise different
      labels, so in the loader's frame no label but \<open>AGE\<close> can occur twice.)\<close>
  "filter_age_frame fr =
     (if count_list (labels fr) ''source_file'' \<le> 1 \<and> count_list (labels fr) ''AGE'' \<le> 1
      then filter_age (table_of fr)
      else if ''source_file'' \<notin> set (labels fr) then Inl (KeyError ''source_file'')
      else Inl AttributeError)"

definition preprocess_data ::
    "(string set \<Rightarrow> string list) \<Rightarrow> dir_entry list \<Rightarrow> string list \<times> (error + table)" where
  \<comment> \<open>the argument \<open>entries\<close> is the listing of the fixed directory \<^verbatim>\<open>../data/raw\<close>\<close>
  "preprocess_data set_list entries =
     (case combine_common_columns_with_age set_list entries of
        (out, Inl e) \<Rightarrow> (out, Inl e)
      | (out, Inr df) \<Rightarrow>
          (case filter_age_frame df of
             Inl e \<Rightarrow> (out, Inl e)
           | Inr df' \<Rightarrow> (out, filter_cols df')))"

section \<open>Notions used to state the properties\<close>

definition selected :: "string \<Rightarrow> bool" where
  \<comment> \<open>the file names that the loader reads\<close>
  "selected file = (endswith file ''.txt'' \<or> endswith file ''.tsv'')"

fun frames_read :: "dir_entry list \<Rightarrow> frame list" where
  \<comment> \<open>the harmonised frames of the selected files that were read, in listing order\<close>
  "frames_read [] = []"
| "frames_read ((file, res) # entries) =
     (case res of
        Inr df0 \<Rightarrow> if selected file then harmonise file df0 # frames_read entries else frames_read entries
      | Inl e \<Rightarrow> frames_read entries)"

fun failures :: "dir_entry list \<Rightarrow> string list" where
  \<comment> \<open>the diagnostics of the selected files that could not be read, in listing order\<close>
  "failures [] = []"
| "failures ((file, res) # entries) =
     (case res of
        Inl e \<Rightarrow> if selected file then (''Failed to read '' @ file @ '': '' @ e) # failures entries
                  else failures entries
      | Inr df0 \<Rightarrow> failures entries)"

fun provenance :: "dir_entry list \<Rightarrow> cell list" where
  \<comment> \<open>for every row of every selected file that was read, in order, the name of its file\<close>
  "provenance [] = []"
| "provenance ((file, res) # entries) =
     (case res of
        Inr df0 \<Rightarrow> if selected file then replicate (length (rows df0)) (Str file) @ provenance entries
                   else provenance entries
      | Inl e \<Rightarrow> provenance entries)"

definition without_failed :: "dir_entry list \<Rightarrow> dir_entry list" where
  \<comment> \<open>the listing without the selected files that could not be read\<close>
  "without_failed entries = filter (\<lambda>(file, res). \<not> (selected file \<and> isl res)) entries"

definition shared_cols :: "frame list \<Rightarrow> string set" where
  \<comment> \<open>the labels common to all frames, \<open>source_file\<close> left out\<close>
  "shared_cols frames = (\<Inter>df \<in> set frames. set (labels df) - {''source_file''})"

fun meet :: "string set option \<Rightarrow> frame list \<Rightarrow> string set option" where
  \<comment> \<open>the running intersection that the loop keeps in \<open>common_cols\<close>\<close>
  "meet c [] = c"
| "meet c (df # frames) =
     meet (Some (case c of None \<Rightarrow> set (labels df) - {''source_file''}
                         | Some cc \<Rightarrow> cc \<inter> (set (labels df) - {''source_file''}))) frames"

definition final_set :: "frame list \<Rightarrow> string set" where
  "final_set frames = shared_cols frames \<union> {''AGE'', ''source_file''}"

definition final_frame :: "string list \<Rightarrow> frame \<Rightarrow> frame" where
  \<comment> \<open>a frame cut down to the final columns that it has\<close>
  "final_frame final_cols df = select_labels (filter (\<lambda>col. col \<in> set (labels df)) final_cols) df"

definition projected_rows :: "frame list \<Rightarrow> frame \<Rightarrow> row list" where
  \<comment> \<open>the rows of a frame, cut down to the final columns that the frame has\<close>
  "projected_rows frames df =
     map (\<lambda>r c. if c \<in> final_set frames \<and> c \<in> set (labels df) then r c else NaN) (rows (table_of df))"

definition tidy :: "frame \<Rightarrow> bool" where
  \<comment> \<open>the rows are missing outside the labels of the frame\<close>
  "tidy fr = (\<forall>l \<in> set (lines fr). \<forall>c. c \<notin> set (labels fr) \<longrightarrow> mk_row l c = NaN)"

definition well_formed :: "frame \<Rightarrow> bool" where
  \<comment> \<open>every line carries the labels of the frame, in order\<close>
  "well_formed fr = (\<forall>l \<in> set (lines fr). map fst l = labels fr)"

section \<open>Example data\<close>

definition row_2022_age5 :: row where
  "row_2022_age5 = mk_row [(''source_file'', Str ''NSDUH_2022.txt''), (''AGE'', Num 5),
                           (''ALCEVER'', Num 1), (''QUESTID'', Num 77)]"

definition row_2019_age5 :: row where
  "row_2019_age5 = mk_row [(''source_file'', Str ''NSDUH_2019.txt''), (''AGE'', Num 5),
                           (''ALCEVER'', Num 1), (''QUESTID'', Num 78)]"

definition row_2019_age9 :: row where
  "row_2019_age9 = mk_row [(''source_file'', Str ''NSDUH_2019.txt''), (''AGE'', Num 9),
                           (''ALCEVER'', Num 3), (''QUESTID'', Num 79)]"

definition row_2019_no_age :: row where
  "row_2019_no_age = mk_row [(''source_file'', Str ''NSDUH_2019.txt''), (''AGE'', NaN),
                             (''ALCEVER'', Num 2), (''QUESTID'', Num 80)]"

definition row_2019_text_age :: row where
  "row_2019_text_age = mk_row [(''source_file'', Str ''NSDUH_2019.txt''), (''AGE'', Str ''abc''),
                               (''ALCEVER'', Num 2), (''QUESTID'', Num 81)]"

definition survey :: table where
  "survey = \<lparr>cols = [''QUESTID'', ''AGE'', ''ALCEVER'', ''source_file''],
             rows = [row_2019_age5, row_2019_age9, row_2022_age5, row_2019_no_age]\<rparr>"

definition survey_text_age :: table where
  "survey_text_age = \<lparr>cols = [''QUESTID'', ''AGE'', ''ALCEVER'', ''source_file''],
                      rows = [row_2019_age5, row_2019_text_age]\<rparr>"

definition survey_aged :: table where
  "survey_aged = \<lparr>cols = [''QUESTID'', ''AGE'', ''ALCEVER'', ''source_file''],
                  rows = [row_2022_age5, row_2019_age9]\<rparr>"

definition survey_final :: table where
  "survey_final = \<lparr>cols = [''AGE'', ''ALCEVER'', ''source_file'', ''year''],
                   rows = [kept_row survey_aged row_2022_age5]\<rparr>"

definition file_2022 :: table where
  "file_2022 = \<lparr>cols = [''AGE2'', ''ALCEVER'', ''IRSEX''],
                 rows = [mk_row [(''AGE2'', Num 5), (''ALCEVER'', Num 1), (''IRSEX'', Num 2)]]\<rparr>"

definition file_old :: table where
  "file_old = \<lparr>cols = [''AGE3'', ''ALCEVER'', ''IRSEX''],
                rows = [mk_row [(''AGE3'', Num 9), (''ALCEVER'', Num 2), (''IRSEX'', Num 1)]]\<rparr>"

definition file_drinks :: table where
  "file_drinks = \<lparr>cols = [''AGE2'', ''DRINKS''],
                   rows = [mk_row [(''AGE2'', Num 6), (''DRINKS'', Num 3)]]\<rparr>"

definition file_sex :: table where
  "file_sex = \<lparr>cols = [''IRSEX''], rows = [mk_row [(''IRSEX'', Num 1)]]\<rparr>"

definition file_smokes :: table where
  "file_smokes = \<lparr>cols = [''AGE3'', ''CIGS''],
                   rows = [mk_row [(''AGE3'', Num 8), (''CIGS'', Num 0)]]\<rparr>"

definition file_two_ages :: table where
  "file_two_ages = \<lparr>cols = [''AGE2'', ''AGE'', ''ALCEVER''],
                     rows = [mk_row [(''AGE2'', Num 5), (''AGE'', Num 12), (''ALCEVER'', Num 1)]]\<rparr>"

definition file_alias :: table where
  "file_alias = \<lparr>cols = [''AGE3'', ''ALCEVER''],
                  rows = [mk_row [(''AGE3'', Num 9), (''ALCEVER'', Num 2)]]\<rparr>"

definition two_files :: "dir_entry list" where
  "two_files = [(''2022.txt'', Inr file_2022), (''old.txt'', Inr file_old)]"

definition three_files :: "dir_entry list" where
  "three_files = [(''2022.txt'', Inr file_2022),
                  (''broken.tsv'', Inl ''No columns to parse from file''),
                  (''notes.md'', Inr file_sex),
                  (''old.txt'', Inr file_old)]"

definition disjoint_files :: "dir_entry list" where
  "disjoint_files = [(''a.txt'', Inr file_drinks), (''b.tsv'', Inr file_sex)]"

definition disjoint_and_broken :: "dir_entry list" where
  "disjoint_and_broken = [(''a.txt'', Inr file_drinks),
                          (''broken.tsv'', Inl ''No columns to parse from file''),
                          (''b.tsv'', Inr file_sex)]"

definition alias_only_files :: "dir_entry list" where
  "alias_only_files = [(''a.txt'', Inr file_drinks), (''c.txt'', Inr file_smokes)]"

definition two_ages_files :: "dir_entry list" where
  "two_ages_files = [(''a.txt'', Inr file_two_ages), (''b.txt'', Inr file_alias)]"

definition line_2022 :: line where
  "line_2022 = [(''AGE'', Num 5), (''ALCEVER'', Num 1), (''IRSEX'', Num 2),
                (''source_file'', Str ''2022.txt'')]"

definition line_old :: line where
  "line_old = [(''AGE'', Num 9), (''ALCEVER'', Num 2), (''IRSEX'', Num 1),
               (''source_file'', Str ''old.txt'')]"

definition line_drinks :: line where
  "line_drinks = [(''AGE'', Num 6), (''DRINKS'', Num 3), (''source_file'', Str ''a.txt'')]"

definition line_smokes :: line where
  "line_smokes = [(''AGE'', Num 8), (''CIGS'', Num 0), (''source_file'', Str ''c.txt'')]"

definition harmonised_2022 :: row where
  "harmonised_2022 = mk_row line_2022"

definition harmonised_old :: row where
  "harmonised_old = mk_row line_old"

definition final_cells_2022 :: "cell list" where
  "final_cells_2022 = [Num 5, Num 1, Num 2, Str ''2022.txt'', Str ''2022'']"

definition final_cells_old :: "cell list" where
  "final_cells_old = [Num 9, Num 2, Num 1, Str ''old.txt'', NaN]"

definition alias_cells_drinks :: "cell list" where
  "alias_cells_drinks = [Num 6, Str ''a.txt'']"

definition alias_cells_smokes :: "cell list" where
  "alias_cells_smokes = [Num 8, Str ''c.txt'']"

section \<open>Facts about the table operations\<close>

lemma startswith_prefix: "startswith s p \<longleftrightarrow> prefix p s"
  by (induction s p rule: startswith.induct) auto

lemma startswith_any_iff: "startswith_any s ps \<longleftrightarrow> (\<exists>p \<in> set ps. prefix p s)"
  by (simp add: startswith_any_def list_ex_iff startswith_prefix)

lemma str_contains_iff: "str_contains s p \<longleftrightarrow> (\<exists>a b. s = a @ p @ b)"
proof (induction s)
  case Nil
  show ?case by auto
next
  case (Cons c cs)
  show ?case
  proof
    assume "str_contains (c # cs) p"
    then consider "prefix p (c # cs)" | "str_contains cs p" by (auto simp: startswith_prefix)
    then show "\<exists>a b. c # cs = a @ p @ b"
    proof cases
      case 1
      then obtain b where "c # cs = p @ b" by (auto simp: prefix_def)
      then have "c # cs = [] @ p @ b" by simp
      then show ?thesis by blast
    next
      case 2
      with Cons.IH obtain a b where "cs = a @ p @ b" by blast
      then have "c # cs = (c # a) @ p @ b" by simp
      then show ?thesis by blast
    qed
  next
    assume "\<exists>a b. c # cs = a @ p @ b"
    then obtain a b where e: "c # cs = a @ p @ b" by blast
    show "str_contains (c # cs) p"
    proof (cases a)
      case Nil
      with e have "prefix p (c # cs)" by (simp add: prefix_def)
      then show ?thesis by (simp add: startswith_prefix)
    next
      case (Cons x a')
      with e have "cs = a' @ p @ b" by simp
      with Cons.IH have "str_contains cs p" by blast
      then show ?thesis by simp
    qed
  qed
qed

lemma mask_filter: "map fst (filter snd (zip xs (map p xs))) = filter p xs"
  by (induction xs) auto

lemma mask_and_filter:
  "map fst (filter snd (zip xs (mask_and (map (\<lambda>r. Some (p r)) xs) (map q xs))))
     = filter (\<lambda>r. p r \<and> q r) xs"
  by (induction xs) (auto simp: mask_and_def)

lemma boolean_index_rows: "rows (boolean_index df (map p (rows df))) = filter p (rows df)"
  by (simp add: boolean_index_def mask_filter)

lemma boolean_index_cols: "cols (boolean_index df m) = cols df"
  by (simp add: boolean_index_def)

lemma set_first_occurrences: "set (first_occurrences xs) = set xs"
  by (simp add: first_occurrences_def)

lemma pd_concat_Inr:
  assumes "frames \<noteq> []"
  shows "\<exists>out. pd_concat frames = Inr out \<and> set (cols out) = (\<Union>f \<in> set frames. set (cols f))
          \<and> rows out = concat (map rows frames)"
proof (cases frames)
  case Nil
  with assms show ?thesis by simp
next
  case (Cons f fs)
  show ?thesis
    by (auto simp: Cons pd_concat_def set_first_occurrences list_all_iff)
qed

lemma str_accessor_ok_strings:
  "\<forall>r \<in> set rs. is_Str (r c) \<Longrightarrow> str_accessor_ok (map (\<lambda>r. r c) rs)"
  by (cases rs) (auto simp: str_accessor_ok_def list_ex_iff)

section \<open>Facts about the column/value filter\<close>

lemma year_no_prefix: "\<not> startswith_any ''year'' prefixes"
  by (simp add: startswith_any_def prefixes_def)

lemma alcever_prefix: "startswith_any ''ALCEVER'' prefixes"
  by (simp add: startswith_any_def prefixes_def)

lemma source_file_prefix: "startswith_any ''source_file'' prefixes"
  by (simp add: startswith_any_def prefixes_def)

lemma age_irsex_prefix: "startswith_any ''AGE'' prefixes" "startswith_any ''IRSEX'' prefixes"
  by (simp_all add: startswith_any_def prefixes_def)

lemma filter_cols_Inr:
  assumes "filter_cols df = Inr out"
  shows "''source_file'' \<in> set (cols df)" and "''ALCEVER'' \<in> set (cols df)"
    and "cols out = filter (\<lambda>col. startswith_any col prefixes) (cols df) @ [''year'']"
    and "rows out = map (kept_row df) (filter alcever_1_or_2 (rows df))"
proof -
  let ?fc = "filter (\<lambda>col. startswith_any col prefixes) (cols df)"
  let ?dy = "set_column ''year'' (\<lambda>r. str_extract_year (r ''source_file'')) (select_cols ?fc df)"
  from assms have src: "''source_file'' \<in> set ?fc"
    by (auto simp: filter_cols_def Let_def column_def select_cols_def split: if_splits)
  then show "''source_file'' \<in> set (cols df)" by simp
  from assms src have alc: "''ALCEVER'' \<in> set (cols ?dy)"
    by (auto simp: filter_cols_def Let_def column_def select_cols_def split: if_splits)
  then show "''ALCEVER'' \<in> set (cols df)"
    by (auto simp: set_column_def select_cols_def split: if_splits)
  from assms src alc have out: "out = boolean_index ?dy (map alcever_1_or_2 (rows ?dy))"
    by (auto simp: filter_cols_def Let_def column_def split: if_splits)
  have ny: "''year'' \<notin> set ?fc" using year_no_prefix by simp
  show "cols out = ?fc @ [''year'']"
    using ny by (simp add: out boolean_index_cols set_column_def select_cols_def)
  have rw: "rows ?dy = map (kept_row df) (rows df)"
    using src by (simp add: set_column_def select_cols_def kept_row_def)
  have keep: "alcever_1_or_2 (kept_row df r) = alcever_1_or_2 r" for r
    using alc alcever_prefix
    by (auto simp: alcever_1_or_2_def kept_row_def set_column_def select_cols_def split: if_splits)
  have "rows out = filter alcever_1_or_2 (rows ?dy)"
    unfolding out by (rule boolean_index_rows)
  also have "\<dots> = filter alcever_1_or_2 (map (kept_row df) (rows df))"
    by (simp only: rw)
  also have "\<dots> = map (kept_row df) (filter alcever_1_or_2 (rows df))"
    by (simp add: filter_map comp_def keep)
  finally show "rows out = map (kept_row df) (filter alcever_1_or_2 (rows df))" .
qed

lemma kept_row_alcever:
  "''ALCEVER'' \<in> set (cols df) \<Longrightarrow> kept_row df r ''ALCEVER'' = r ''ALCEVER''"
  using alcever_prefix by (simp add: kept_row_def)

lemma kept_row_source_file:
  "''source_file'' \<in> set (cols df) \<Longrightarrow> kept_row df r ''source_file'' = r ''source_file''"
  using source_file_prefix by (simp add: kept_row_def)

lemma filter_cols_returns:
  assumes "''source_file'' \<in> set (cols df)" and "''ALCEVER'' \<in> set (cols df)"
    and "str_accessor_ok (map (\<lambda>r. r ''source_file'') (rows df))"
  shows "\<exists>out. filter_cols df = Inr out"
proof -
  have "map (\<lambda>r. if startswith_any ''source_file'' prefixes then r ''source_file'' else NaN) (rows df)
        = map (\<lambda>r. r ''source_file'') (rows df)"
    using source_file_prefix by simp
  then show ?thesis
    using assms source_file_prefix alcever_prefix
    by (simp add: filter_cols_def Let_def column_def select_cols_def set_column_def comp_def)
qed

section \<open>Facts about the age filter\<close>

lemma filter_age_numeric:
  assumes sf: "''source_file'' \<in> set (cols df)" and ag: "''AGE'' \<in> set (cols df)"
    and strs: "\<forall>r \<in> set (rows df). is_Str (r ''source_file'')"
    and nums: "\<forall>r \<in> set (rows df). \<not> is_Str (r ''AGE'')"
  shows "filter_age df = Inr \<lparr>cols = cols df,
      rows = filter (\<lambda>r. recent r \<and> age_within 4 7 r) (rows df)
           @ filter (\<lambda>r. \<not> recent r \<and> age_within 7 13 r) (rows df)\<rparr>"
proof -
  let ?src = "map (\<lambda>r. r ''source_file'') (rows df)"
  let ?age = "map (\<lambda>r. r ''AGE'') (rows df)"
  have acc: "str_accessor_ok ?src"
    using strs by (rule str_accessor_ok_strings)
  have rm: "map str_contains_years ?src = map (\<lambda>r. Some (recent r)) (rows df)"
    using strs by (auto simp: recent_def str_contains_years_def split: cell.splits)
  have nn: "\<not> list_ex (\<lambda>x. x = None) (map (\<lambda>r. Some (recent r)) (rows df))"
    by (auto simp: list_ex_iff)
  have om: "map (map_option Not) (map (\<lambda>r. Some (recent r)) (rows df))
      = map (\<lambda>r. Some (\<not> recent r)) (rows df)"
    by simp
  have ns: "\<not> list_ex is_Str ?age" using nums by (simp add: list_ex_iff)
  have b: "series_between l h ?age = Inr (map (age_within l h) (rows df))" for l h
    using ns by (simp add: series_between_def age_within_def comp_def)
  show ?thesis
    unfolding filter_age_def column_def
    using sf ag acc
    apply (simp only: if_True sum.case Let_def rm b mask_not_def nn if_False om not_not)
    apply (simp add: pd_concat_def boolean_index_def mask_and_filter)
    done
qed

lemma filter_age_cases:
  "filter_age df =
     (if ''source_file'' \<notin> set (cols df) then Inl (KeyError ''source_file'')
      else if \<not> str_accessor_ok (map (\<lambda>r. r ''source_file'') (rows df)) then Inl AttributeError
      else if ''AGE'' \<notin> set (cols df) then Inl (KeyError ''AGE'')
      else if list_ex is_Str (map (\<lambda>r. r ''AGE'') (rows df)) then Inl TypeError
      else if list_ex (\<lambda>x. x = None) (map str_contains_years (map (\<lambda>r. r ''source_file'') (rows df)))
        then Inl TypeError
      else pd_concat
        [boolean_index df (mask_and (map str_contains_years (map (\<lambda>r. r ''source_file'') (rows df)))
            (map (\<lambda>c. case c of Num x \<Rightarrow> 4 \<le> x \<and> x \<le> 7 | _ \<Rightarrow> False)
                 (map (\<lambda>r. r ''AGE'') (rows df)))),
         boolean_index df
            (mask_and (map (map_option Not) (map str_contains_years (map (\<lambda>r. r ''source_file'') (rows df))))
            (map (\<lambda>c. case c of Num x \<Rightarrow> 7 \<le> x \<and> x \<le> 13 | _ \<Rightarrow> False)
                 (map (\<lambda>r. r ''AGE'') (rows df))))])"
  by (simp add: filter_age_def column_def Let_def series_between_def mask_not_def del: map_map)

lemma filter_age_no_source:
  "''source_file'' \<notin> set (cols df) \<Longrightarrow> filter_age df = Inl (KeyError ''source_file'')"
  by (simp add: filter_age_cases)

lemma filter_age_no_age: "''AGE'' \<notin> set (cols df) \<Longrightarrow> \<exists>e. filter_age df = Inl e"
  by (simp add: filter_age_cases)

lemma filter_age_text_age:
  assumes "r \<in> set (rows df)" "is_Str (r ''AGE'')"
  shows "\<exists>e. filter_age df = Inl e"
proof -
  have "list_ex is_Str (map (\<lambda>r. r ''AGE'') (rows df))"
    using assms by (auto simp: list_ex_iff)
  then show ?thesis
    unfolding filter_age_cases by (simp del: set_map map_map)
qed

lemma filter_age_other_source:
  assumes "r \<in> set (rows df)" "\<not> is_Str (r ''source_file'')"
  shows "\<exists>e. filter_age df = Inl e"
proof -
  have "str_contains_years (r ''source_file'') = None"
    using assms(2) by (cases "r ''source_file''") (simp_all add: str_contains_years_def)
  then have "list_ex (\<lambda>x. x = None) (map str_contains_years (map (\<lambda>r. r ''source_file'') (rows df)))"
    using assms(1) by (force simp: list_ex_iff image_iff)
  then show ?thesis
    unfolding filter_age_cases by (simp del: set_map map_map)
qed

lemma filter_age_Inr:
  assumes "filter_age df = Inr out"
  shows "''source_file'' \<in> set (cols df) \<and> ''AGE'' \<in> set (cols df) \<and>
    (\<forall>r \<in> set (rows df). is_Str (r ''source_file'')) \<and>
    (\<forall>r \<in> set (rows df). \<not> is_Str (r ''AGE''))"
  using assms filter_age_no_source[of df] filter_age_no_age[of df]
    filter_age_text_age[of _ df] filter_age_other_source[of _ df]
  by (metis sum.distinct(1))

lemma filter_age_text_age_raises:
  assumes sf: "''source_file'' \<in> set (cols df)" and ag: "''AGE'' \<in> set (cols df)"
    and acc: "str_accessor_ok (map (\<lambda>r. r ''source_file'') (rows df))"
    and bad: "\<exists>r \<in> set (rows df). is_Str (r ''AGE'')"
  shows "filter_age df = Inl TypeError"
proof -
  have "list_ex is_Str (map (\<lambda>r. r ''AGE'') (rows df))"
    using bad by (auto simp: list_ex_iff)
  then show ?thesis
    unfolding filter_age_cases using sf ag acc by (simp del: set_map map_map)
qed

lemma filter_age_frame_empty: "filter_age_frame empty_frame = Inl (KeyError ''source_file'')"
  by (simp add: filter_age_frame_def filter_age_no_source empty_frame_def table_of_def)

lemma recent_iff:
  "recent r \<longleftrightarrow> (\<exists>s. r ''source_file'' = Str s \<and>
      (\<exists>y \<in> {''2021'', ''2022'', ''2023''}. \<exists>a b. s = a @ y @ b))"
  by (cases "r ''source_file''") (simp_all add: recent_def str_contains_years_def str_contains_iff)

lemma survives_age_iff:
  "survives_age r \<longleftrightarrow>
     (\<exists>x. r ''AGE'' = Num x \<and> (if recent r then 4 \<le> x \<and> x \<le> 7 else 7 \<le> x \<and> x \<le> 13))"
  by (cases "r ''AGE''") (simp_all add: survives_age_def age_within_def)

section \<open>Facts about frames\<close>

lemma mk_row_select:
  "mk_row (concat (map (\<lambda>key. filter (\<lambda>(k, x). k = key) l) keys)) c
     = (if c \<in> set keys then mk_row l c else NaN)"
proof -
  have one: "map_of (filter (\<lambda>(k, x). k = key) l) c = (if c = key then map_of l c else None)" for key
    by (induction l) auto
  have "map_of (concat (map (\<lambda>key. filter (\<lambda>(k, x). k = key) l) keys)) c
      = (if c \<in> set keys then map_of l c else None)"
  proof (induction keys)
    case Nil
    show ?case by simp
  next
    case (Cons key keys)
    show ?case
      using Cons.IH by (auto simp: map_add_def one split: option.splits)
  qed
  then show ?thesis by (simp add: mk_row_def)
qed

lemma mk_row_reindex: "mk_row (reindex_line ls l) c = (if c \<in> set ls then mk_row l c else NaN)"
proof -
  have "map_of (map (\<lambda>k. (k, mk_row l k)) ls) c = (if c \<in> set ls then Some (mk_row l c) else None)"
    by (induction ls) auto
  then show ?thesis by (simp add: reindex_line_def mk_row_def)
qed

lemma mk_row_rename:
  assumes "c \<noteq> old" and "c \<noteq> new"
  shows "mk_row (map (\<lambda>(k, x). (if k = old then new else k, x)) l) c = mk_row l c"
proof -
  have "map_of (map (\<lambda>(k, x). (if k = old then new else k, x)) l) c = map_of l c"
    using assms by (induction l) auto
  then show ?thesis by (simp add: mk_row_def)
qed

lemma mk_row_overwrite:
  assumes "c \<in> fst ` set l"
  shows "mk_row (map (\<lambda>(k, x). (k, if k = c then v else x)) l) c = v"
proof -
  have "map_of (map (\<lambda>(k, x). (k, if k = c then v else x)) l) c = Some v"
    using assms by (induction l) auto
  then show ?thesis by (simp add: mk_row_def)
qed

lemma mk_row_append:
  assumes "c \<notin> fst ` set l"
  shows "mk_row (l @ [(c, v)]) c = v"
proof -
  have "map_of l c = None" using assms by (simp add: map_of_eq_None_iff)
  then show ?thesis by (simp add: mk_row_def map_add_def)
qed

lemma well_formed_frame_of: "well_formed (frame_of df)"
  by (simp add: well_formed_def frame_of_def comp_def)

lemma length_lines_frame_of: "length (lines (frame_of df)) = length (rows df)"
  by (simp add: frame_of_def)

lemma labels_assign_column: "set (labels (assign_column c v fr)) = insert c (set (labels fr))"
  by (auto simp: assign_column_def)

lemma length_lines_assign_column: "length (lines (assign_column c v fr)) = length (lines fr)"
  by (simp add: assign_column_def)

lemma assigned_cells:
  assumes "well_formed fr" and "l \<in> set (lines (assign_column c v fr))"
  shows "mk_row l c = v"
proof (cases "c \<in> set (labels fr)")
  case True
  with assms(2) obtain l0 where l0: "l0 \<in> set (lines fr)"
    and l: "l = map (\<lambda>(k, x). (k, if k = c then v else x)) l0"
    by (auto simp: assign_column_def)
  from assms(1) l0 have "map fst l0 = labels fr" by (simp add: well_formed_def)
  with True have "c \<in> fst ` set l0" by (metis set_map)
  then show ?thesis unfolding l by (rule mk_row_overwrite)
next
  case False
  with assms(2) obtain l0 where l0: "l0 \<in> set (lines fr)" and l: "l = l0 @ [(c, v)]"
    by (auto simp: assign_column_def)
  from assms(1) l0 have "map fst l0 = labels fr" by (simp add: well_formed_def)
  with False have "c \<notin> fst ` set l0" by (metis set_map)
  then show ?thesis unfolding l by (rule mk_row_append)
qed

lemma labels_rename_age: "set (labels (rename_age cands fr)) \<supseteq> set (labels fr) - set cands"
  by (induction cands) (auto simp: rename_label_def)

lemma rename_age_keeps_cells:
  assumes "c \<notin> set cands" and "c \<noteq> ''AGE''"
  shows "map (\<lambda>l. mk_row l c) (lines (rename_age cands fr)) = map (\<lambda>l. mk_row l c) (lines fr)"
  using assms by (induction cands) (auto simp: rename_label_def mk_row_rename)

lemma source_file_harmonise: "''source_file'' \<in> set (labels (harmonise file df0))"
proof -
  have "''source_file'' \<in> set (labels (assign_column ''source_file'' (Str file) (frame_of df0)))
          - set age_column_candidates"
    by (simp add: labels_assign_column age_column_candidates_def)
  then show ?thesis
    unfolding harmonise_def using labels_rename_age by blast
qed

lemma cells_harmonise_source:
  "map (\<lambda>l. mk_row l ''source_file'') (lines (harmonise file df0)) = replicate (length (rows df0)) (Str file)"
proof -
  let ?a = "assign_column ''source_file'' (Str file) (frame_of df0)"
  have "map (\<lambda>l. mk_row l ''source_file'') (lines (harmonise file df0))
      = map (\<lambda>l. mk_row l ''source_file'') (lines ?a)"
    unfolding harmonise_def by (rule rename_age_keeps_cells) (simp_all add: age_column_candidates_def)
  also have "\<dots> = map (\<lambda>l. Str file) (lines ?a)"
    by (rule map_cong[OF refl]) (rule assigned_cells[OF well_formed_frame_of])
  also have "\<dots> = replicate (length (rows df0)) (Str file)"
    by (simp add: map_replicate_const length_lines_assign_column length_lines_frame_of)
  finally show ?thesis .
qed

lemma labels_select:
  "set (labels (select_labels keys fr)) = set keys \<inter> set (labels fr)"
  by (auto simp: select_labels_def)

lemma distinct_select:
  assumes "distinct keys" and "distinct (labels fr)"
  shows "distinct (labels (select_labels keys fr))"
proof -
  have "distinct (concat (map (\<lambda>key. filter (\<lambda>k. k = key) ls) keys))" if "distinct ls" for ls :: "string list"
    using assms(1)
  proof (induction keys)
    case Nil
    show ?case by simp
  next
    case (Cons key keys)
    then show ?case using that by auto
  qed
  with assms(2) show ?thesis by (simp add: select_labels_def)
qed

lemma labels_final_frame:
  "set (labels (final_frame final_cols df)) = set final_cols \<inter> set (labels df)"
  by (auto simp: final_frame_def labels_select)

lemma distinct_final_frame:
  "distinct final_cols \<Longrightarrow> distinct (labels df) \<Longrightarrow> distinct (labels (final_frame final_cols df))"
  unfolding final_frame_def by (rule distinct_select) simp_all

lemma rows_final_frame:
  "rows (table_of (final_frame final_cols df))
     = map (\<lambda>r c. if c \<in> set final_cols \<and> c \<in> set (labels df) then r c else NaN) (rows (table_of df))"
  by (auto simp: final_frame_def select_labels_def table_of_def mk_row_select fun_eq_iff)

lemma tidy_final_frame: "tidy (final_frame final_cols df)"
  unfolding tidy_def
proof (intro ballI allI impI)
  fix l c
  assume l: "l \<in> set (lines (final_frame final_cols df))"
    and c: "c \<notin> set (labels (final_frame final_cols df))"
  from l obtain l0 where
    "l = concat (map (\<lambda>key. filter (\<lambda>(k, x). k = key) l0) (filter (\<lambda>col. col \<in> set (labels df)) final_cols))"
    by (auto simp: final_frame_def select_labels_def)
  moreover from c have "c \<notin> set (filter (\<lambda>col. col \<in> set (labels df)) final_cols)"
    by (simp add: labels_final_frame)
  ultimately show "mk_row l c = NaN" by (simp only: mk_row_select if_False)
qed

lemma concat_frames_labels:
  assumes "concat_frames frames = Inr out"
  shows "set (labels out) = (\<Union>f \<in> set frames. set (labels f))"
proof (cases frames)
  case Nil
  with assms show ?thesis by (simp add: concat_frames_def)
next
  case (Cons f fs)
  show ?thesis
  proof (cases "list_all (\<lambda>g. labels g = labels f) fs")
    case True
    with assms Cons have "labels out = labels f" by (auto simp: concat_frames_def)
    with True Cons show ?thesis by (auto simp: list_all_iff)
  next
    case False
    with assms Cons have "labels out = first_occurrences (concat (map labels frames))"
      by (auto simp: concat_frames_def Let_def split: if_splits)
    then show ?thesis by (simp add: set_first_occurrences)
  qed
qed

lemma concat_frames_rows:
  assumes "concat_frames frames = Inr out" and "\<forall>f \<in> set frames. tidy f"
  shows "rows (table_of out) = concat (map (\<lambda>f. rows (table_of f)) frames)"
proof (cases frames)
  case Nil
  with assms show ?thesis by (simp add: concat_frames_def)
next
  case (Cons f fs)
  show ?thesis
  proof (cases "list_all (\<lambda>g. labels g = labels f) fs")
    case True
    with assms Cons have "lines out = concat (map lines frames)" by (auto simp: concat_frames_def)
    then show ?thesis by (simp add: table_of_def map_concat comp_def)
  next
    case False
    define ls where "ls = first_occurrences (concat (map labels frames))"
    from False assms Cons have l: "lines out = concat (map (\<lambda>g. map (reindex_line ls) (lines g)) frames)"
      by (auto simp: concat_frames_def Let_def ls_def split: if_splits)
    have eq: "mk_row (reindex_line ls l) = mk_row l" if "g \<in> set frames" "l \<in> set (lines g)" for g l
    proof
      fix c
      show "mk_row (reindex_line ls l) c = mk_row l c"
      proof (cases "c \<in> set ls")
        case True
        then show ?thesis by (simp add: mk_row_reindex)
      next
        case False
        with that(1) have "c \<notin> set (labels g)" by (auto simp: ls_def set_first_occurrences)
        with assms(2) that have "mk_row l c = NaN" by (auto simp: tidy_def)
        with False show ?thesis by (simp add: mk_row_reindex)
      qed
    qed
    have m: "map (\<lambda>l. mk_row (reindex_line ls l)) (lines g) = map mk_row (lines g)" if "g \<in> set frames" for g
      by (rule map_cong[OF refl]) (rule eq[OF that])
    have "map (\<lambda>g. map (\<lambda>l. mk_row (reindex_line ls l)) (lines g)) frames
        = map (\<lambda>g. map mk_row (lines g)) frames"
      by (rule map_cong[OF refl]) (rule m)
    then have h: "concat (map (\<lambda>g. map (\<lambda>l. mk_row (reindex_line ls l)) (lines g)) frames)
        = concat (map (\<lambda>g. map mk_row (lines g)) frames)"
      by (rule arg_cong)
    show ?thesis
      by (simp add: table_of_def l map_concat comp_def h)
  qed
qed

lemma concat_frames_returns:
  assumes "frames \<noteq> []" and "\<forall>f \<in> set frames. distinct (labels f)"
  shows "\<exists>out. concat_frames frames = Inr out \<and> distinct (labels out)"
proof (cases frames)
  case Nil
  with assms show ?thesis by simp
next
  case (Cons f fs)
  have nd: "\<not> list_ex (\<lambda>g. \<not> distinct (labels g)) frames"
    using assms(2) by (simp add: list_ex_iff)
  have "distinct (first_occurrences xs)" for xs :: "string list"
    by (simp add: first_occurrences_def)
  with nd assms(2) show ?thesis
    unfolding Cons concat_frames_def by (auto simp: Let_def)
qed

section \<open>Facts about the loader\<close>

lemma set_list_ok_sorted: "set_list_ok sorted_list_of_set"
  by (simp add: set_list_ok_def)

lemma meet_Some:
  "meet (Some cc) frames = Some (cc \<inter> (\<Inter>df \<in> set frames. set (labels df) - {''source_file''}))"
  by (induction frames arbitrary: cc) (auto simp: Int_assoc)

lemma meet_None: "meet None frames = (if frames = [] then None else Some (shared_cols frames))"
  by (cases frames) (auto simp: meet_Some shared_cols_def)

lemma shared_cols_mem:
  "c \<in> shared_cols frames \<longleftrightarrow> (\<forall>df \<in> set frames. c \<in> set (labels df) \<and> c \<noteq> ''source_file'')"
  by (auto simp: shared_cols_def)

lemma finite_shared_cols: "frames \<noteq> [] \<Longrightarrow> finite (shared_cols frames)"
  by (cases frames) (auto simp: shared_cols_def)

lemma scan_state:
  "scan entries st =
     \<lparr>dfs = dfs st @ frames_read entries,
      common_cols = meet (common_cols st) (frames_read entries),
      printed = printed st @ failures entries\<rparr>"
proof (induction entries arbitrary: st)
  case Nil
  show ?case by simp
next
  case (Cons a entries)
  obtain name res where a: "a = (name, res)" by (cases a)
  show ?case
    by (cases res) (simp_all add: a Cons.IH read_file_def selected_def Let_def)
qed

lemma loader_recovers:
  assumes "frames_read entries = [] \<or> shared_cols (frames_read entries) = {}"
  shows "combine_common_columns_with_age set_list entries =
           (failures entries @ [''No compatible files found.''], Inr empty_frame)"
  using assms by (auto simp: combine_common_columns_with_age_def scan_state meet_None Let_def)

lemma loader_combines:
  assumes "frames_read entries \<noteq> []" "shared_cols (frames_read entries) \<noteq> {}"
  shows "combine_common_columns_with_age set_list entries =
           (failures entries,
            concat_frames (map (final_frame (set_list (shared_cols (frames_read entries) \<union> {''AGE'', ''source_file''})))
               (frames_read entries)))"
  using assms
  by (simp add: combine_common_columns_with_age_def scan_state meet_None Let_def final_frame_def[abs_def])

lemma set_final_cols:
  assumes "set_list_ok set_list" and "frames \<noteq> []"
  shows "set (set_list (shared_cols frames \<union> {''AGE'', ''source_file''})) = final_set frames"
    and "distinct (set_list (shared_cols frames \<union> {''AGE'', ''source_file''}))"
proof -
  have "finite (shared_cols frames \<union> {''AGE'', ''source_file''})"
    using assms(2) by (simp add: finite_shared_cols)
  with assms(1) show "set (set_list (shared_cols frames \<union> {''AGE'', ''source_file''})) = final_set frames"
    and "distinct (set_list (shared_cols frames \<union> {''AGE'', ''source_file''}))"
    by (simp_all add: set_list_ok_def final_set_def)
qed

lemma loader_output:
  assumes ok: "set_list_ok set_list"
    and ne: "frames_read entries \<noteq> []" and sh: "shared_cols (frames_read entries) \<noteq> {}"
    and out: "snd (combine_common_columns_with_age set_list entries) = Inr out"
  shows "combine_common_columns_with_age set_list entries = (failures entries, Inr out)"
    and "set (labels out) = (\<Union>df \<in> set (frames_read entries). final_set (frames_read entries) \<inter> set (labels df))"
    and "rows (table_of out) = concat (map (projected_rows (frames_read entries)) (frames_read entries))"
proof -
  let ?fr = "frames_read entries"
  define fc where "fc = set_list (shared_cols ?fr \<union> {''AGE'', ''source_file''})"
  have sfc: "set fc = final_set ?fr"
    unfolding fc_def by (rule set_final_cols(1)[OF ok ne])
  have lc: "combine_common_columns_with_age set_list entries
      = (failures entries, concat_frames (map (final_frame fc) ?fr))"
    unfolding fc_def by (rule loader_combines[OF ne sh])
  from out have c: "concat_frames (map (final_frame fc) ?fr) = Inr out"
    by (simp add: lc)
  then show "combine_common_columns_with_age set_list entries = (failures entries, Inr out)"
    by (simp add: lc)
  show "set (labels out) = (\<Union>df \<in> set ?fr. final_set ?fr \<inter> set (labels df))"
    unfolding concat_frames_labels[OF c] by (simp add: labels_final_frame sfc)
  have "rows (table_of out) = concat (map (\<lambda>f. rows (table_of f)) (map (final_frame fc) ?fr))"
    using c by (rule concat_frames_rows) (simp add: tidy_final_frame)
  also have "\<dots> = concat (map (projected_rows ?fr) ?fr)"
    by (simp add: comp_def rows_final_frame projected_rows_def[abs_def] sfc)
  finally show "rows (table_of out) = concat (map (projected_rows ?fr) ?fr)" .
qed

lemma loader_returns:
  assumes ok: "set_list_ok set_list"
    and d: "\<forall>fr \<in> set (frames_read entries). distinct (labels fr)"
  shows "\<exists>out. snd (combine_common_columns_with_age set_list entries) = Inr out \<and> distinct (labels out)"
proof (cases "frames_read entries = [] \<or> shared_cols (frames_read entries) = {}")
  case True
  then show ?thesis by (simp add: loader_recovers empty_frame_def)
next
  case False
  then have ne: "frames_read entries \<noteq> []" and sh: "shared_cols (frames_read entries) \<noteq> {}" by auto
  let ?fc = "set_list (shared_cols (frames_read entries) \<union> {''AGE'', ''source_file''})"
  let ?fs = "map (final_frame ?fc) (frames_read entries)"
  have "?fs \<noteq> []" using ne by simp
  moreover have "\<forall>f \<in> set ?fs. distinct (labels f)"
    using d set_final_cols(2)[OF ok ne] by (auto intro: distinct_final_frame)
  ultimately obtain out where "concat_frames ?fs = Inr out" "distinct (labels out)"
    using concat_frames_returns by blast
  then show ?thesis by (simp add: loader_combines[OF ne sh])
qed

lemma frames_read_source:
  "df \<in> set (frames_read entries) \<Longrightarrow> ''source_file'' \<in> set (labels df)"
  by (induction entries rule: frames_read.induct) (auto simp: source_file_harmonise split: sum.splits if_splits)

lemma frames_read_provenance:
  "concat (map (\<lambda>df. map (\<lambda>r. r ''source_file'') (rows (table_of df))) (frames_read entries))
     = provenance entries"
proof -
  have "map (\<lambda>r. r ''source_file'') (rows (table_of (harmonise name df0)))
      = replicate (length (rows df0)) (Str name)" for name df0
    using cells_harmonise_source[of name df0] by (simp add: table_of_def comp_def)
  then show ?thesis
    by (induction entries rule: frames_read.induct) (auto split: sum.splits)
qed

lemma projected_rows_source:
  assumes "''source_file'' \<in> set (labels df)"
  shows "map (\<lambda>r. r ''source_file'') (projected_rows frames df)
           = map (\<lambda>r. r ''source_file'') (rows (table_of df))"
  using assms by (simp add: projected_rows_def final_set_def)

lemma frames_read_without_failed: "frames_read (without_failed entries) = frames_read entries"
  by (induction entries rule: frames_read.induct) (auto simp: without_failed_def split: sum.splits)

lemma failures_without_failed: "failures (without_failed entries) = []"
  by (induction entries rule: failures.induct) (auto simp: without_failed_def split: sum.splits)

lemma failures_mem:
  "(name, Inl e) \<in> set entries \<Longrightarrow> selected name \<Longrightarrow>
    (''Failed to read '' @ name @ '': '' @ e) \<in> set (failures entries)"
  by (induction entries rule: failures.induct) (auto split: sum.splits)

lemma loader_split:
  "combine_common_columns_with_age set_list entries =
     (failures entries @ fst (combine_common_columns_with_age set_list (without_failed entries)),
      snd (combine_common_columns_with_age set_list (without_failed entries)))"
  by (simp add: combine_common_columns_with_age_def scan_state Let_def
      frames_read_without_failed failures_without_failed split: option.splits)

section \<open>Facts about the orchestrator\<close>

lemma filter_age_frame_distinct:
  assumes "distinct (labels fr)"
  shows "filter_age_frame fr = filter_age (table_of fr)"
proof -
  have "distinct xs \<Longrightarrow> count_list xs c \<le> 1" for xs :: "string list" and c
    by (induction xs) auto
  with assms have "count_list (labels fr) c \<le> 1" for c
    by blast
  then show ?thesis by (simp add: filter_age_frame_def)
qed

lemma filter_age_frame_Inr:
  "filter_age_frame fr = Inr out \<Longrightarrow> filter_age (table_of fr) = Inr out"
  by (auto simp: filter_age_frame_def split: if_splits)

lemma preprocess_data_snd:
  "snd (preprocess_data set_list entries) =
     (case snd (combine_common_columns_with_age set_list entries) of
        Inl e \<Rightarrow> Inl e
      | Inr df \<Rightarrow> (case filter_age_frame df of Inl e \<Rightarrow> Inl e | Inr df' \<Rightarrow> filter_cols df'))"
  by (simp add: preprocess_data_def split: prod.splits sum.splits)

lemma preprocess_data_fst:
  "fst (preprocess_data set_list entries) = fst (combine_common_columns_with_age set_list entries)"
  by (simp add: preprocess_data_def split: prod.splits sum.splits)

lemma preprocess_data_recover:
  assumes "frames_read entries = [] \<or> shared_cols (frames_read entries) = {}"
  shows "preprocess_data set_list entries =
           (failures entries @ [''No compatible files found.''], Inl (KeyError ''source_file''))"
  by (simp add: preprocess_data_def loader_recovers[OF assms] filter_age_frame_empty)

section \<open>Facts about the example data\<close>

lemma survey_cells:
  "row_2022_age5 ''source_file'' = Str ''NSDUH_2022.txt''" "row_2022_age5 ''AGE'' = Num 5"
  "row_2022_age5 ''ALCEVER'' = Num 1"
  "row_2019_age5 ''source_file'' = Str ''NSDUH_2019.txt''" "row_2019_age5 ''AGE'' = Num 5"
  "row_2019_age5 ''ALCEVER'' = Num 1"
  "row_2019_age9 ''source_file'' = Str ''NSDUH_2019.txt''" "row_2019_age9 ''AGE'' = Num 9"
  "row_2019_age9 ''ALCEVER'' = Num 3"
  "row_2019_no_age ''source_file'' = Str ''NSDUH_2019.txt''" "row_2019_no_age ''AGE'' = NaN"
  "row_2019_no_age ''ALCEVER'' = Num 2"
  "row_2019_text_age ''source_file'' = Str ''NSDUH_2019.txt''" "row_2019_text_age ''AGE'' = Str ''abc''"
  "row_2019_text_age ''ALCEVER'' = Num 2"
  by (simp_all add: row_2022_age5_def row_2019_age5_def row_2019_age9_def row_2019_no_age_def
      row_2019_text_age_def mk_row_def)

lemma harmonised_cells:
  "harmonised_2022 ''AGE'' = Num 5" "harmonised_2022 ''ALCEVER'' = Num 1" "harmonised_2022 ''IRSEX'' = Num 2"
  "harmonised_2022 ''source_file'' = Str ''2022.txt''" "harmonised_2022 ''year'' = NaN"
  "harmonised_old ''AGE'' = Num 9" "harmonised_old ''ALCEVER'' = Num 2" "harmonised_old ''IRSEX'' = Num 1"
  "harmonised_old ''source_file'' = Str ''old.txt''" "harmonised_old ''year'' = NaN"
  by (simp_all add: harmonised_2022_def harmonised_old_def line_2022_def line_old_def mk_row_def)

lemma selected_examples:
  "selected ''2022.txt''" "selected ''old.txt''" "selected ''a.txt''" "selected ''b.tsv''"
  "selected ''b.txt''" "selected ''c.txt''" "selected ''broken.tsv''" "\<not> selected ''notes.md''"
  by (simp_all add: selected_def endswith_def)

lemma harmonise_2022:
  "harmonise ''2022.txt'' file_2022 =
     \<lparr>labels = [''AGE'', ''ALCEVER'', ''IRSEX'', ''source_file''], lines = [line_2022]\<rparr>"
  by (simp add: harmonise_def file_2022_def frame_of_def assign_column_def age_column_candidates_def
      rename_label_def line_2022_def mk_row_def)

lemma harmonise_old:
  "harmonise ''old.txt'' file_old =
     \<lparr>labels = [''AGE'', ''ALCEVER'', ''IRSEX'', ''source_file''], lines = [line_old]\<rparr>"
  by (simp add: harmonise_def file_old_def frame_of_def assign_column_def age_column_candidates_def
      rename_label_def line_old_def mk_row_def)

lemma projected_harmonised:
  assumes "final_set frames = {''AGE'', ''ALCEVER'', ''IRSEX'', ''source_file''}"
  shows "projected_rows frames \<lparr>labels = [''AGE'', ''ALCEVER'', ''IRSEX'', ''source_file''], lines = [line_2022]\<rparr>
           = [harmonised_2022]"
    and "projected_rows frames \<lparr>labels = [''AGE'', ''ALCEVER'', ''IRSEX'', ''source_file''], lines = [line_old]\<rparr>
           = [harmonised_old]"
  by (auto simp: projected_rows_def table_of_def assms fun_eq_iff harmonised_2022_def harmonised_old_def
      line_2022_def line_old_def mk_row_def)

lemma harmonise_drinks:
  "harmonise ''a.txt'' file_drinks =
     \<lparr>labels = [''AGE'', ''DRINKS'', ''source_file''], lines = [line_drinks]\<rparr>"
  by (simp add: harmonise_def file_drinks_def frame_of_def assign_column_def age_column_candidates_def
      rename_label_def line_drinks_def mk_row_def)

lemma harmonise_smokes:
  "harmonise ''c.txt'' file_smokes =
     \<lparr>labels = [''AGE'', ''CIGS'', ''source_file''], lines = [line_smokes]\<rparr>"
  by (simp add: harmonise_def file_smokes_def frame_of_def assign_column_def age_column_candidates_def
      rename_label_def line_smokes_def mk_row_def)

lemma labels_harmonise_sex:
  "labels (harmonise ''b.tsv'' file_sex) = [''IRSEX'', ''source_file'']"
  by (simp add: harmonise_def file_sex_def frame_of_def assign_column_def age_column_candidates_def
      rename_label_def)

lemma labels_harmonise_two_ages:
  "labels (harmonise ''a.txt'' file_two_ages) = [''AGE'', ''AGE'', ''ALCEVER'', ''source_file'']"
  "labels (harmonise ''b.txt'' file_alias) = [''AGE'', ''ALCEVER'', ''source_file'']"
  by (simp_all add: harmonise_def file_two_ages_def file_alias_def frame_of_def assign_column_def
      age_column_candidates_def rename_label_def)

lemma frames_read_disjoint:
  "frames_read disjoint_files = [harmonise ''a.txt'' file_drinks, harmonise ''b.tsv'' file_sex]"
  by (simp add: disjoint_files_def selected_examples)

lemma shared_cols_disjoint: "shared_cols (frames_read disjoint_files) = {}"
  by (auto simp: frames_read_disjoint shared_cols_def harmonise_drinks labels_harmonise_sex)

lemma failures_disjoint: "failures disjoint_files = []"
  by (simp add: disjoint_files_def)

lemma frames_read_disjoint_and_broken:
  "frames_read disjoint_and_broken = [harmonise ''a.txt'' file_drinks, harmonise ''b.tsv'' file_sex]"
  by (simp add: disjoint_and_broken_def selected_examples)

lemma shared_cols_disjoint_and_broken: "shared_cols (frames_read disjoint_and_broken) = {}"
  by (auto simp: frames_read_disjoint_and_broken shared_cols_def harmonise_drinks labels_harmonise_sex)

lemma failures_disjoint_and_broken:
  "failures disjoint_and_broken = [''Failed to read broken.tsv: No columns to parse from file'']"
  by (simp add: disjoint_and_broken_def selected_examples)

lemma frames_read_three:
  "frames_read three_files = [harmonise ''2022.txt'' file_2022, harmonise ''old.txt'' file_old]"
  by (simp add: three_files_def selected_examples)

lemma shared_cols_three: "shared_cols (frames_read three_files) = {''AGE'', ''ALCEVER'', ''IRSEX''}"
  by (auto simp: frames_read_three shared_cols_def harmonise_2022 harmonise_old)

lemma frames_read_two:
  "frames_read two_files = [harmonise ''2022.txt'' file_2022, harmonise ''old.txt'' file_old]"
  by (simp add: two_files_def selected_examples)

lemma shared_cols_two: "shared_cols (frames_read two_files) = {''AGE'', ''ALCEVER'', ''IRSEX''}"
  by (auto simp: frames_read_two shared_cols_def harmonise_2022 harmonise_old)

lemma distinct_two: "\<forall>fr \<in> set (frames_read two_files). distinct (labels fr)"
  by (simp add: frames_read_two harmonise_2022 harmonise_old)

lemma distinct_three: "\<forall>fr \<in> set (frames_read three_files). distinct (labels fr)"
  by (simp add: frames_read_three harmonise_2022 harmonise_old)

lemma frames_read_alias_only:
  "frames_read alias_only_files = [harmonise ''a.txt'' file_drinks, harmonise ''c.txt'' file_smokes]"
  by (simp add: alias_only_files_def selected_examples)

lemma shared_cols_alias_only: "shared_cols (frames_read alias_only_files) = {''AGE''}"
  by (auto simp: frames_read_alias_only shared_cols_def harmonise_drinks harmonise_smokes)

lemma filter_age_survey: "filter_age survey = Inr survey_aged"
  by (simp add: survey_def survey_aged_def filter_age_def column_def str_accessor_ok_def survey_cells
     str_contains_years_def series_between_def mask_and_def mask_not_def boolean_index_def pd_concat_def)

lemma filter_cols_survey_aged: "filter_cols survey_aged = Inr survey_final"
proof -
  have "\<exists>out. filter_cols survey_aged = Inr out"
    by (rule filter_cols_returns) (simp_all add: survey_aged_def str_accessor_ok_def survey_cells)
  then obtain out where out: "filter_cols survey_aged = Inr out" ..
  have c: "cols out = [''AGE'', ''ALCEVER'', ''source_file'', ''year'']"
    unfolding filter_cols_Inr(3)[OF out]
    by (simp add: survey_aged_def startswith_any_def prefixes_def)
  have r: "rows out = [kept_row survey_aged row_2022_age5]"
    unfolding filter_cols_Inr(4)[OF out]
    by (simp add: survey_aged_def alcever_1_or_2_def survey_cells)
  have "out = survey_final"
    by (simp add: survey_final_def c r)
  with out show ?thesis by simp
qed

section \<open>The loader on a frame with a repeated label\<close>

lemma count_select:
  assumes "distinct keys" and "c \<in> set keys"
  shows "count_list (labels (select_labels keys fr)) c = count_list (labels fr) c"
proof -
  have one: "count_list (filter (\<lambda>k. k = key) ls) x = (if x = key then count_list ls x else 0)"
    for key x and ls :: "string list"
    by (induction ls) auto
  have "count_list (concat (map (\<lambda>key. filter (\<lambda>k. k = key) ls) keys)) c = count_list ls c"
    for ls :: "string list"
    using assms
  proof (induction keys)
    case Nil
    then show ?case by simp
  next
    case (Cons key keys)
    show ?case
    proof (cases "c = key")
      case True
      with Cons.prems have "c \<notin> set keys" by simp
      then have "count_list (concat (map (\<lambda>key. filter (\<lambda>k. k = key) ls) keys)) c = 0"
        by (induction keys) (auto simp: one)
      with True show ?thesis by (simp add: one)
    next
      case False
      with Cons show ?thesis by (simp add: one)
    qed
  qed
  then show ?thesis by (simp add: select_labels_def)
qed

lemma count_final_frame:
  assumes "distinct final_cols" and "c \<in> set final_cols" and "c \<in> set (labels df)"
  shows "count_list (labels (final_frame final_cols df)) c = count_list (labels df) c"
  unfolding final_frame_def using assms by (intro count_select) simp_all

lemma distinct_count_le_1: "distinct xs \<Longrightarrow> count_list xs c \<le> 1"
  by (induction xs) auto

lemma frames_read_two_ages:
  "frames_read two_ages_files = [harmonise ''a.txt'' file_two_ages, harmonise ''b.txt'' file_alias]"
  by (simp add: two_ages_files_def selected_examples)

lemma shared_cols_two_ages: "shared_cols (frames_read two_ages_files) = {''AGE'', ''ALCEVER''}"
  by (auto simp: frames_read_two_ages shared_cols_def labels_harmonise_two_ages)

lemma loader_two_ages:
  assumes "set_list_ok set_list"
  shows "combine_common_columns_with_age set_list two_ages_files = ([], Inl InvalidIndexError)"
    and "preprocess_data set_list two_ages_files = ([], Inl InvalidIndexError)"
proof -
  let ?fr = "frames_read two_ages_files"
  define fc where "fc = set_list (shared_cols ?fr \<union> {''AGE'', ''source_file''})"
  have ne: "?fr \<noteq> []" by (simp add: frames_read_two_ages)
  have sh: "shared_cols ?fr \<noteq> {}" by (simp add: shared_cols_two_ages)
  have dfc: "distinct fc" and age: "''AGE'' \<in> set fc"
    using set_final_cols[OF assms ne] by (simp_all add: fc_def final_set_def)
  let ?a = "final_frame fc (harmonise ''a.txt'' file_two_ages)"
  let ?b = "final_frame fc (harmonise ''b.txt'' file_alias)"
  have ca: "count_list (labels ?a) ''AGE'' = 2"
    by (simp add: count_final_frame[OF dfc age] labels_harmonise_two_ages)
  have cb: "count_list (labels ?b) ''AGE'' = 1"
    by (simp add: count_final_frame[OF dfc age] labels_harmonise_two_ages)
  from ca cb have differ: "labels ?b \<noteq> labels ?a" by auto
  from ca have rep: "\<not> distinct (labels ?a)"
    using distinct_count_le_1[of "labels ?a" "''AGE''"] by auto
  have cf: "concat_frames [?a, ?b] = Inl InvalidIndexError"
    using differ rep by (simp add: concat_frames_def)
  have fl: "failures two_ages_files = []" by (simp add: two_ages_files_def)
  have lc: "combine_common_columns_with_age set_list two_ages_files
      = (failures two_ages_files, concat_frames (map (final_frame fc) ?fr))"
    unfolding fc_def by (rule loader_combines[OF ne sh])
  have m: "map (final_frame fc) ?fr = [?a, ?b]" by (simp add: frames_read_two_ages)
  show l: "combine_common_columns_with_age set_list two_ages_files = ([], Inl InvalidIndexError)"
    by (simp only: lc m cf fl)
  show "preprocess_data set_list two_ages_files = ([], Inl InvalidIndexError)"
    by (simp add: preprocess_data_def l)
qed

section \<open>The column/value filter keeps the rows with ALCEVER 1 or 2\<close>

text \<open>
  Claim C1. On a table with an \<open>ALCEVER\<close> column (and the \<open>source_file\<close> column of
  strings that the filter reads before it), \<open>filter_cols\<close> returns a table whose rows are,
  in order, exactly the input rows with \<open>ALCEVER\<close> equal to 1 or to 2, each cut down to the
  kept columns and given its \<open>year\<close>; the cut leaves \<open>ALCEVER\<close> as it was. A row whose
  \<open>ALCEVER\<close> is missing, a string or another number is dropped, so every row of the
  output has \<open>ALCEVER\<close> 1 or 2.
\<close>

theorem filter_cols_keeps_alcever_1_or_2:
  assumes "''ALCEVER'' \<in> set (cols df)" and "''source_file'' \<in> set (cols df)"
    and "str_accessor_ok (map (\<lambda>r. r ''source_file'') (rows df))"
  shows "\<exists>out. filter_cols df = Inr out
     \<and> rows out = map (kept_row df) (filter (\<lambda>r. r ''ALCEVER'' = Num 1 \<or> r ''ALCEVER'' = Num 2) (rows df))
     \<and> (\<forall>r. kept_row df r ''ALCEVER'' = r ''ALCEVER'')
     \<and> (\<forall>r \<in> set (rows out). r ''ALCEVER'' = Num 1 \<or> r ''ALCEVER'' = Num 2)"
proof -
  from filter_cols_returns[OF assms(2,1,3)] obtain out where out: "filter_cols df = Inr out" ..
  have r: "rows out = map (kept_row df) (filter (\<lambda>r. r ''ALCEVER'' = Num 1 \<or> r ''ALCEVER'' = Num 2) (rows df))"
    using filter_cols_Inr(4)[OF out] by (simp add: alcever_1_or_2_def[abs_def])
  have k: "kept_row df r ''ALCEVER'' = r ''ALCEVER''" for r
    using assms(1) by (rule kept_row_alcever)
  have "\<forall>r \<in> set (rows out). r ''ALCEVER'' = Num 1 \<or> r ''ALCEVER'' = Num 2"
    unfolding r by (auto simp: k)
  with out r k show ?thesis by blast
qed

theorem filter_cols_keeps_alcever_1_or_2_witness:
  "\<exists>out. filter_cols survey = Inr out
     \<and> rows out = map (kept_row survey) [row_2019_age5, row_2022_age5, row_2019_no_age]
     \<and> (\<forall>r. kept_row survey r ''ALCEVER'' = r ''ALCEVER'')
     \<and> (\<forall>r \<in> set (rows out). r ''ALCEVER'' = Num 1 \<or> r ''ALCEVER'' = Num 2)"
  using filter_cols_keeps_alcever_1_or_2[of survey]
  by (simp add: survey_def str_accessor_ok_def survey_cells)

section \<open>The age filter keeps the rows in the range of their cohort\<close>

text \<open>
  Claim C2, as stated, fails where an \<open>AGE\<close> cell is a string: the comparison of the
  column with the bounds raises a type error, so no table is returned and no row is
  dropped.
\<close>

theorem filter_age_text_age_counterexample:
  "''source_file'' \<in> set (cols survey_text_age) \<and> ''AGE'' \<in> set (cols survey_text_age)
   \<and> filter_age survey_text_age = Inl TypeError"
  by (simp add: survey_text_age_def filter_age_def column_def str_accessor_ok_def survey_cells
     str_contains_years_def series_between_def mask_and_def mask_not_def boolean_index_def pd_concat_def)

text \<open>
  Claim C2, amended. On a table with a \<open>source_file\<close> column of strings and an \<open>AGE\<close>
  column: when every \<open>AGE\<close> cell is a number or missing, \<open>filter_age\<close> returns a table,
  and a row is in it if and only if it is an input row whose \<open>AGE\<close> is a number that lies
  in [4, 7] when its \<open>source_file\<close> contains 2021, 2022 or 2023, and in [7, 13] otherwise;
  a row with a missing \<open>AGE\<close> is dropped. When some \<open>AGE\<close> cell is a string, the filter
  raises a type error.
\<close>

theorem filter_age_survivors:
  assumes "''source_file'' \<in> set (cols df)" and "''AGE'' \<in> set (cols df)"
    and "\<forall>r \<in> set (rows df). is_Str (r ''source_file'')"
  shows "(\<forall>r. recent r \<longleftrightarrow>
            (\<exists>s. r ''source_file'' = Str s \<and> (\<exists>y \<in> {''2021'', ''2022'', ''2023''}. \<exists>a b. s = a @ y @ b)))
     \<and> (if \<exists>r \<in> set (rows df). is_Str (r ''AGE'') then filter_age df = Inl TypeError
         else (\<exists>out. filter_age df = Inr out
                \<and> (\<forall>r. r \<in> set (rows out) \<longleftrightarrow>
                       r \<in> set (rows df) \<and>
                       (\<exists>x. r ''AGE'' = Num x \<and> (if recent r then 4 \<le> x \<and> x \<le> 7 else 7 \<le> x \<and> x \<le> 13)))
                \<and> (\<forall>r \<in> set (rows df). r ''AGE'' = NaN \<longrightarrow> r \<notin> set (rows out))))"
proof (rule conjI)
  show "\<forall>r. recent r \<longleftrightarrow>
            (\<exists>s. r ''source_file'' = Str s \<and> (\<exists>y \<in> {''2021'', ''2022'', ''2023''}. \<exists>a b. s = a @ y @ b))"
    using recent_iff by blast
next
  show "if \<exists>r \<in> set (rows df). is_Str (r ''AGE'') then filter_age df = Inl TypeError
         else (\<exists>out. filter_age df = Inr out
                \<and> (\<forall>r. r \<in> set (rows out) \<longleftrightarrow>
                       r \<in> set (rows df) \<and>
                       (\<exists>x. r ''AGE'' = Num x \<and> (if recent r then 4 \<le> x \<and> x \<le> 7 else 7 \<le> x \<and> x \<le> 13)))
                \<and> (\<forall>r \<in> set (rows df). r ''AGE'' = NaN \<longrightarrow> r \<notin> set (rows out)))"
  proof (cases "\<exists>r \<in> set (rows df). is_Str (r ''AGE'')")
    case True
    have "str_accessor_ok (map (\<lambda>r. r ''source_file'') (rows df))"
      using assms(3) by (rule str_accessor_ok_strings)
    with assms True show ?thesis by (simp add: filter_age_text_age_raises)
  next
    case False
    then have "\<forall>r \<in> set (rows df). \<not> is_Str (r ''AGE'')" by simp
    define out where "out = \<lparr>cols = cols df,
        rows = filter (\<lambda>r. recent r \<and> age_within 4 7 r) (rows df)
             @ filter (\<lambda>r. \<not> recent r \<and> age_within 7 13 r) (rows df)\<rparr>"
    have fa: "filter_age df = Inr out"
      unfolding out_def using assms(1,2,3) \<open>\<forall>r \<in> set (rows df). \<not> is_Str (r ''AGE'')\<close>
      by (rule filter_age_numeric)
    have "r \<in> set (rows out) \<longleftrightarrow> r \<in> set (rows df) \<and> survives_age r" for r
      by (auto simp: out_def survives_age_def)
    then have mem: "r \<in> set (rows out) \<longleftrightarrow>
        r \<in> set (rows df) \<and>
        (\<exists>x. r ''AGE'' = Num x \<and> (if recent r then 4 \<le> x \<and> x \<le> 7 else 7 \<le> x \<and> x \<le> 13))" for r
      unfolding survives_age_iff .
    have nan: "\<forall>r \<in> set (rows df). r ''AGE'' = NaN \<longrightarrow> r \<notin> set (rows out)"
      by (simp add: mem)
    have "\<exists>out. filter_age df = Inr out
                \<and> (\<forall>r. r \<in> set (rows out) \<longleftrightarrow>
                       r \<in> set (rows df) \<and>
                       (\<exists>x. r ''AGE'' = Num x \<and> (if recent r then 4 \<le> x \<and> x \<le> 7 else 7 \<le> x \<and> x \<le> 13)))
                \<and> (\<forall>r \<in> set (rows df). r ''AGE'' = NaN \<longrightarrow> r \<notin> set (rows out))"
      using fa mem nan by blast
    then show ?thesis
      using False by (simp only: if_False)
  qed
qed

theorem filter_age_survivors_witness:
  "\<exists>out. filter_age survey = Inr out
     \<and> (\<forall>r. r \<in> set (rows out) \<longleftrightarrow>
            r \<in> set (rows survey) \<and>
            (\<exists>x. r ''AGE'' = Num x \<and> (if recent r then 4 \<le> x \<and> x \<le> 7 else 7 \<le> x \<and> x \<le> 13)))
     \<and> (\<forall>r \<in> set (rows survey). r ''AGE'' = NaN \<longrightarrow> r \<notin> set (rows out))"
proof -
  have h: "''source_file'' \<in> set (cols survey)" "''AGE'' \<in> set (cols survey)"
    "\<forall>r \<in> set (rows survey). is_Str (r ''source_file'')"
    by (simp_all add: survey_def survey_cells)
  have n: "\<not> (\<exists>r \<in> set (rows survey). is_Str (r ''AGE''))"
    by (simp add: survey_def survey_cells)
  from filter_age_survivors[OF h] have
    "if \<exists>r \<in> set (rows survey). is_Str (r ''AGE'') then filter_age survey = Inl TypeError
     else (\<exists>out. filter_age survey = Inr out
            \<and> (\<forall>r. r \<in> set (rows out) \<longleftrightarrow>
                   r \<in> set (rows survey) \<and>
                   (\<exists>x. r ''AGE'' = Num x \<and> (if recent r then 4 \<le> x \<and> x \<le> 7 else 7 \<le> x \<and> x \<le> 13)))
            \<and> (\<forall>r \<in> set (rows survey). r ''AGE'' = NaN \<longrightarrow> r \<notin> set (rows out)))"
    by (rule conjunct2)
  then show ?thesis by (simp only: n if_False)
qed

section \<open>The columns that the column/value filter returns\<close>

text \<open>
  Claim C3, as stated, fails: the filter adds the column \<open>year\<close>, whose name starts with
  none of the eight prefixes.
\<close>

theorem filter_cols_year_column_counterexample:
  "map_sum id cols (filter_cols survey) = Inr [''AGE'', ''ALCEVER'', ''source_file'', ''year'']
   \<and> \<not> startswith_any ''year'' prefixes"
  by (simp add: survey_def filter_cols_def column_def str_accessor_ok_def survey_cells
     select_cols_def set_column_def startswith_any_def prefixes_def boolean_index_def)

text \<open>
  Claim C3, amended. The columns of the output of \<open>filter_cols\<close> are the input columns
  whose name starts with one of the eight prefixes, in their order, followed by the derived
  column \<open>year\<close>: every output column other than \<open>year\<close> is an input column that starts
  with one of the prefixes, and no other input column is left.
\<close>

theorem filter_cols_columns:
  assumes "''ALCEVER'' \<in> set (cols df)" and "''source_file'' \<in> set (cols df)"
    and "str_accessor_ok (map (\<lambda>r. r ''source_file'') (rows df))"
  shows "\<exists>out. filter_cols df = Inr out
     \<and> cols out = filter (\<lambda>col. \<exists>p \<in> set prefixes. prefix p col) (cols df) @ [''year'']
     \<and> (\<forall>col \<in> set (cols out). col = ''year'' \<or> (col \<in> set (cols df) \<and> (\<exists>p \<in> set prefixes. prefix p col)))"
proof -
  from filter_cols_returns[OF assms(2,1,3)] obtain out where out: "filter_cols df = Inr out" ..
  have c: "cols out = filter (\<lambda>col. \<exists>p \<in> set prefixes. prefix p col) (cols df) @ [''year'']"
    using filter_cols_Inr(3)[OF out] by (simp add: startswith_any_iff)
  then have "\<forall>col \<in> set (cols out). col = ''year'' \<or> (col \<in> set (cols df) \<and> (\<exists>p \<in> set prefixes. prefix p col))"
    by auto
  with out c show ?thesis by blast
qed

theorem filter_cols_columns_witness:
  "\<exists>out. filter_cols survey = Inr out
     \<and> cols out = [''AGE'', ''ALCEVER'', ''source_file'', ''year'']
     \<and> (\<forall>col \<in> set (cols out). col = ''year'' \<or> (col \<in> set (cols survey) \<and> (\<exists>p \<in> set prefixes. prefix p col)))"
proof -
  have "filter (\<lambda>col. \<exists>p \<in> set prefixes. prefix p col) (cols survey) = [''AGE'', ''ALCEVER'', ''source_file'']"
    by (simp add: survey_def prefixes_def)
  then show ?thesis
    using filter_cols_columns[of survey]
    by (simp add: survey_def str_accessor_ok_def survey_cells)
qed

section \<open>The age filter only drops rows\<close>

text \<open>
  Claim C10. When \<open>filter_age\<close> returns a table, its columns are the input columns, every
  row of it is a row of the input (a row is the cells of all its columns, so no cell of a
  surviving row is changed), the rows of the recent cohort come first and the others
  after them, and within each of the two groups the rows stand in their input order.
\<close>

theorem filter_age_only_drops_rows:
  assumes "filter_age df = Inr out"
  shows "cols out = cols df
     \<and> set (rows out) \<subseteq> set (rows df)
     \<and> rows out = filter recent (rows out) @ filter (\<lambda>r. \<not> recent r) (rows out)
     \<and> subseq (filter recent (rows out)) (rows df)
     \<and> subseq (filter (\<lambda>r. \<not> recent r) (rows out)) (rows df)"
proof -
  let ?a = "filter (\<lambda>r. recent r \<and> age_within 4 7 r) (rows df)"
  let ?b = "filter (\<lambda>r. \<not> recent r \<and> age_within 7 13 r) (rows df)"
  from filter_age_Inr[OF assms] have "filter_age df = Inr \<lparr>cols = cols df, rows = ?a @ ?b\<rparr>"
    by (intro filter_age_numeric) simp_all
  with assms have c: "cols out = cols df" and r: "rows out = ?a @ ?b" by auto
  have fa: "filter recent (rows out) = ?a"
    unfolding r by (auto simp: filter_empty_conv intro: filter_cong)
  have fb: "filter (\<lambda>r. \<not> recent r) (rows out) = ?b"
    unfolding r by (auto simp: filter_empty_conv intro: filter_cong)
  show ?thesis
    unfolding fa fb using c r by auto
qed

theorem filter_age_only_drops_rows_witness:
  "filter_age survey = Inr survey_aged
   \<and> cols survey_aged = cols survey
   \<and> set (rows survey_aged) \<subseteq> set (rows survey)
   \<and> subseq (filter recent (rows survey_aged)) (rows survey)
   \<and> subseq (filter (\<lambda>r. \<not> recent r) (rows survey_aged)) (rows survey)"
  using filter_age_only_drops_rows[OF filter_age_survey] filter_age_survey by simp

section \<open>The loader without compatible files\<close>

text \<open>
  Claim C5 does not hold of the code. The comment over the intersection in the loader says
  that the common columns are taken without the age column, which is handled separately,
  but the code removes only \<open>source_file\<close>. The files \<open>a.txt\<close> with the columns \<open>AGE2\<close>,
  \<open>DRINKS\<close> and \<open>c.txt\<close> with the columns \<open>AGE3\<close>, \<open>CIGS\<close> share no column name; after the
  renaming both have \<open>AGE\<close>, the intersection is not empty, and the loader prints nothing
  and returns the two rows under \<open>AGE\<close> and \<open>source_file\<close> instead of the empty table.
\<close>

theorem loader_alias_only_files:
  assumes "set_list_ok set_list"
  shows "set (cols file_drinks) \<inter> set (cols file_smokes) = {}
     \<and> (\<exists>out. combine_common_columns_with_age set_list alias_only_files = ([], Inr out)
           \<and> set (labels out) = {''AGE'', ''source_file''}
           \<and> map (\<lambda>r. map r [''AGE'', ''source_file'']) (rows (table_of out))
               = [alias_cells_drinks, alias_cells_smokes])"
proof (rule conjI)
  show "set (cols file_drinks) \<inter> set (cols file_smokes) = {}"
    by (simp add: file_drinks_def file_smokes_def)
next
  let ?fr = "frames_read alias_only_files"
  have ne: "?fr \<noteq> []" by (simp add: frames_read_alias_only)
  have sh: "shared_cols ?fr \<noteq> {}" by (simp add: shared_cols_alias_only)
  have fs: "final_set ?fr = {''AGE'', ''source_file''}"
    by (auto simp: final_set_def shared_cols_alias_only)
  have d: "\<forall>fr \<in> set ?fr. distinct (labels fr)"
    by (simp add: frames_read_alias_only harmonise_drinks harmonise_smokes)
  from loader_returns[OF assms d] obtain out where
    out: "snd (combine_common_columns_with_age set_list alias_only_files) = Inr out" by blast
  note lo = loader_output[OF assms ne sh out]
  have f: "failures alias_only_files = []" by (simp add: alias_only_files_def)
  have c: "set (labels out) = {''AGE'', ''source_file''}"
    unfolding lo(2) fs by (auto simp: frames_read_alias_only harmonise_drinks harmonise_smokes)
  have r: "map (\<lambda>r. map r [''AGE'', ''source_file'']) (rows (table_of out))
      = [alias_cells_drinks, alias_cells_smokes]"
    unfolding lo(3) projected_rows_def[abs_def] fs
    by (simp add: frames_read_alias_only harmonise_drinks harmonise_smokes
        table_of_def mk_row_def line_drinks_def line_smokes_def alias_cells_drinks_def
        alias_cells_smokes_def)
  from lo(1) f c r
  show "\<exists>out. combine_common_columns_with_age set_list alias_only_files = ([], Inr out)
           \<and> set (labels out) = {''AGE'', ''source_file''}
           \<and> map (\<lambda>r. map r [''AGE'', ''source_file'']) (rows (table_of out))
               = [alias_cells_drinks, alias_cells_smokes]"
    by auto
qed

theorem loader_alias_only_files_witness:
  "set (cols file_drinks) \<inter> set (cols file_smokes) = {}
     \<and> (\<exists>out. combine_common_columns_with_age sorted_list_of_set alias_only_files = ([], Inr out)
           \<and> set (labels out) = {''AGE'', ''source_file''}
           \<and> map (\<lambda>r. map r [''AGE'', ''source_file'']) (rows (table_of out))
               = [alias_cells_drinks, alias_cells_smokes])"
  by (rule loader_alias_only_files[OF set_list_ok_sorted])

section \<open>The orchestrator on the empty table\<close>

text \<open>
  Claim C4 does not hold of the code. On a directory without any file to read the loader
  prints its diagnostic and hands the empty table to \<open>filter_age\<close>, whose first lookup,
  of the column \<open>source_file\<close>, raises a key error: \<open>preprocess_data\<close> raises instead of
  returning a table.
\<close>

theorem preprocess_data_empty_directory:
  "preprocess_data set_list [] = ([''No compatible files found.''], Inl (KeyError ''source_file''))"
  using preprocess_data_recover[of "[]" set_list] by simp

theorem preprocess_data_empty_directory_witness:
  "preprocess_data sorted_list_of_set [] = ([''No compatible files found.''], Inl (KeyError ''source_file''))"
  by (rule preprocess_data_empty_directory)

section \<open>A file that cannot be read\<close>

text \<open>
  Claim C6, as stated, fails where the files that were read share no column: the loader
  then returns the empty table, beside a file that failed or not, and no row of the files
  that were read appears in it.
\<close>

theorem parse_failure_counterexample:
  "combine_common_columns_with_age sorted_list_of_set disjoint_and_broken =
     (failures disjoint_and_broken @ [''No compatible files found.''], Inr empty_frame)
   \<and> failures disjoint_and_broken = [''Failed to read broken.tsv: No columns to parse from file'']
   \<and> lines empty_frame = []
   \<and> length (rows file_drinks) = 1 \<and> length (rows file_sex) = 1"
proof -
  have h: "frames_read disjoint_and_broken = [] \<or> shared_cols (frames_read disjoint_and_broken) = {}"
    by (simp add: shared_cols_disjoint_and_broken)
  from loader_recovers[OF h, of sorted_list_of_set] show ?thesis
    by (simp add: failures_disjoint_and_broken empty_frame_def file_drinks_def file_sex_def)
qed

text \<open>
  Claim C6, amended. A selected file on which the reader fails is left out and nothing else
  changes: the diagnostic of every failed file is printed, and the loader's result, and so
  the result of the whole of \<open>preprocess_data\<close>, is its result on the listing without the
  failed files. When the frames that were read share a column (after the renaming,
  \<open>source_file\<close> aside) and none of them carries a label twice, the loader returns a table
  whose rows are the rows of all these frames, in order, each cut down to the final columns
  of its frame; when they share no column, it returns the empty table.
\<close>

theorem parse_failure_skips_only_that_file:
  "snd (combine_common_columns_with_age set_list entries)
       = snd (combine_common_columns_with_age set_list (without_failed entries))
   \<and> snd (preprocess_data set_list entries) = snd (preprocess_data set_list (without_failed entries))
   \<and> (\<forall>name e. (name, Inl e) \<in> set entries \<and> selected name \<longrightarrow>
         (''Failed to read '' @ name @ '': '' @ e) \<in> set (fst (combine_common_columns_with_age set_list entries))
       \<and> (''Failed to read '' @ name @ '': '' @ e) \<in> set (fst (preprocess_data set_list entries)))
   \<and> (set_list_ok set_list \<and> frames_read entries \<noteq> [] \<and> shared_cols (frames_read entries) \<noteq> {}
        \<and> (\<forall>fr \<in> set (frames_read entries). distinct (labels fr)) \<longrightarrow>
        (\<exists>out. snd (combine_common_columns_with_age set_list entries) = Inr out
           \<and> rows (table_of out) = concat (map (projected_rows (frames_read entries)) (frames_read entries))))
   \<and> (frames_read entries = [] \<or> shared_cols (frames_read entries) = {} \<longrightarrow>
        snd (combine_common_columns_with_age set_list entries) = Inr empty_frame)"
proof (intro conjI allI impI)
  show l: "snd (combine_common_columns_with_age set_list entries)
     = snd (combine_common_columns_with_age set_list (without_failed entries))"
    by (subst loader_split) simp
  show "snd (preprocess_data set_list entries) = snd (preprocess_data set_list (without_failed entries))"
    by (simp only: preprocess_data_snd l)
next
  fix name e
  assume a: "(name, Inl e) \<in> set entries \<and> selected name"
  then have "(''Failed to read '' @ name @ '': '' @ e) \<in> set (failures entries)"
    using failures_mem by blast
  then show m: "(''Failed to read '' @ name @ '': '' @ e)
      \<in> set (fst (combine_common_columns_with_age set_list entries))"
    by (subst loader_split) simp
  show "(''Failed to read '' @ name @ '': '' @ e) \<in> set (fst (preprocess_data set_list entries))"
    using m by (simp only: preprocess_data_fst)
next
  assume a: "set_list_ok set_list \<and> frames_read entries \<noteq> [] \<and> shared_cols (frames_read entries) \<noteq> {}
        \<and> (\<forall>fr \<in> set (frames_read entries). distinct (labels fr))"
  then obtain out where out: "snd (combine_common_columns_with_age set_list entries) = Inr out"
    using loader_returns[of set_list entries] by blast
  from a have "rows (table_of out) = concat (map (projected_rows (frames_read entries)) (frames_read entries))"
    by (intro loader_output(3)[OF _ _ _ out]) simp_all
  with out show "\<exists>out. snd (combine_common_columns_with_age set_list entries) = Inr out
           \<and> rows (table_of out) = concat (map (projected_rows (frames_read entries)) (frames_read entries))"
    by blast
next
  assume "frames_read entries = [] \<or> shared_cols (frames_read entries) = {}"
  then show "snd (combine_common_columns_with_age set_list entries) = Inr empty_frame"
    by (simp add: loader_recovers)
qed

theorem parse_failure_skips_only_that_file_witness:
  "snd (combine_common_columns_with_age sorted_list_of_set three_files)
     = snd (combine_common_columns_with_age sorted_list_of_set (without_failed three_files))
   \<and> snd (preprocess_data sorted_list_of_set three_files)
     = snd (preprocess_data sorted_list_of_set (without_failed three_files))
   \<and> ''Failed to read broken.tsv: No columns to parse from file''
        \<in> set (fst (combine_common_columns_with_age sorted_list_of_set three_files))
   \<and> (\<exists>out. snd (combine_common_columns_with_age sorted_list_of_set three_files) = Inr out
           \<and> rows (table_of out) = concat (map (projected_rows (frames_read three_files)) (frames_read three_files)))
   \<and> snd (combine_common_columns_with_age sorted_list_of_set disjoint_and_broken) = Inr empty_frame"
proof -
  note t = parse_failure_skips_only_that_file[of sorted_list_of_set three_files]
  note u = parse_failure_skips_only_that_file[of sorted_list_of_set disjoint_and_broken]
  have m: "(''broken.tsv'', Inl ''No columns to parse from file'') \<in> set three_files \<and> selected ''broken.tsv''"
    by (simp add: three_files_def selected_examples)
  have h: "set_list_ok sorted_list_of_set \<and> frames_read three_files \<noteq> []
        \<and> shared_cols (frames_read three_files) \<noteq> {}
        \<and> (\<forall>fr \<in> set (frames_read three_files). distinct (labels fr))"
    using distinct_three by (simp add: set_list_ok_sorted shared_cols_three) (simp add: frames_read_three)
  have g: "frames_read disjoint_and_broken = [] \<or> shared_cols (frames_read disjoint_and_broken) = {}"
    by (simp add: shared_cols_disjoint_and_broken)
  from t have a: "\<forall>name e. (name, Inl e) \<in> set three_files \<and> selected name \<longrightarrow>
         (''Failed to read '' @ name @ '': '' @ e) \<in> set (fst (combine_common_columns_with_age sorted_list_of_set three_files))
       \<and> (''Failed to read '' @ name @ '': '' @ e) \<in> set (fst (preprocess_data sorted_list_of_set three_files))"
    by (elim conjE)
  from a m have "(''Failed to read '' @ ''broken.tsv'' @ '': '' @ ''No columns to parse from file'')
      \<in> set (fst (combine_common_columns_with_age sorted_list_of_set three_files))"
    by blast
  then have d: "''Failed to read broken.tsv: No columns to parse from file''
        \<in> set (fst (combine_common_columns_with_age sorted_list_of_set three_files))" by simp
  from u g have e: "snd (combine_common_columns_with_age sorted_list_of_set disjoint_and_broken) = Inr empty_frame"
    by blast
  from t h d e show ?thesis by blast
qed

section \<open>The columns of the loader's table\<close>

text \<open>
  Claim C7, as stated, fails on files that were read but share no column: the loader then
  returns the empty table, which has no column at all, although a file has the age column
  and every frame has \<open>source_file\<close>.
\<close>

theorem loader_columns_counterexample:
  "frames_read disjoint_files = [harmonise ''a.txt'' file_drinks, harmonise ''b.tsv'' file_sex]
   \<and> labels (harmonise ''a.txt'' file_drinks) = [''AGE'', ''DRINKS'', ''source_file'']
   \<and> labels (harmonise ''b.tsv'' file_sex) = [''IRSEX'', ''source_file'']
   \<and> combine_common_columns_with_age sorted_list_of_set disjoint_files =
       ([''No compatible files found.''], Inr \<lparr>labels = [], lines = []\<rparr>)"
proof -
  have h: "frames_read disjoint_files = [] \<or> shared_cols (frames_read disjoint_files) = {}"
    by (simp add: shared_cols_disjoint)
  from loader_recovers[OF h, of sorted_list_of_set] show ?thesis
    by (simp add: failures_disjoint frames_read_disjoint harmonise_drinks labels_harmonise_sex
        empty_frame_def)
qed

text \<open>
  Claim C7, amended. Let at least one selected file be read. Whenever the loader returns a
  table, which it does whenever no frame carries a label twice after the renaming: if the
  frames that were read share a column other than \<open>source_file\<close>, the column set of the
  table is the intersection of the column sets of these frames (after the renaming),
  together with \<open>AGE\<close> when some frame has it, together with \<open>source_file\<close>; if they share
  none, the table is the empty table, which has no columns.
\<close>

theorem loader_columns:
  assumes "set_list_ok set_list" and "frames_read entries \<noteq> []"
  shows "((\<forall>fr \<in> set (frames_read entries). distinct (labels fr)) \<longrightarrow>
            (\<exists>out. snd (combine_common_columns_with_age set_list entries) = Inr out))
     \<and> (\<forall>out. snd (combine_common_columns_with_age set_list entries) = Inr out \<longrightarrow>
           (if shared_cols (frames_read entries) = {} then out = empty_frame
            else set (labels out) = (\<Inter>df \<in> set (frames_read entries). set (labels df))
               \<union> (if \<exists>df \<in> set (frames_read entries). ''AGE'' \<in> set (labels df) then {''AGE''} else {})
               \<union> {''source_file''}))"
proof (intro conjI allI impI)
  assume "\<forall>fr \<in> set (frames_read entries). distinct (labels fr)"
  then show "\<exists>out. snd (combine_common_columns_with_age set_list entries) = Inr out"
    using loader_returns[OF assms(1)] by blast
next
  fix out
  assume out: "snd (combine_common_columns_with_age set_list entries) = Inr out"
  let ?fr = "frames_read entries"
  show "if shared_cols ?fr = {} then out = empty_frame
        else set (labels out) = (\<Inter>df \<in> set ?fr. set (labels df))
               \<union> (if \<exists>df \<in> set ?fr. ''AGE'' \<in> set (labels df) then {''AGE''} else {})
               \<union> {''source_file''}"
  proof (cases "shared_cols ?fr = {}")
    case True
    with out show ?thesis by (simp add: loader_recovers)
  next
    case False
    note c = loader_output(2)[OF assms(1,2) False out]
    obtain d where d: "d \<in> set ?fr" using assms(2) by (cases ?fr) auto
    have src: "''source_file'' \<in> set (labels df)" if "df \<in> set ?fr" for df
      using that by (rule frames_read_source)
    have "(\<Union>df \<in> set ?fr. final_set ?fr \<inter> set (labels df))
        = (\<Inter>df \<in> set ?fr. set (labels df))
          \<union> (if \<exists>df \<in> set ?fr. ''AGE'' \<in> set (labels df) then {''AGE''} else {})
          \<union> {''source_file''}" (is "?L = ?R")
    proof (rule set_eqI)
      fix c
      show "c \<in> ?L \<longleftrightarrow> c \<in> ?R"
      proof
        assume "c \<in> ?L"
        then obtain df where df: "df \<in> set ?fr" "c \<in> final_set ?fr" "c \<in> set (labels df)" by blast
        from df(2) consider "c \<in> shared_cols ?fr" | "c = ''AGE''" | "c = ''source_file''"
          by (auto simp: final_set_def)
        then show "c \<in> ?R"
        proof cases
          case 1 then show ?thesis by (auto simp: shared_cols_mem)
        next
          case 2 with df show ?thesis by auto
        next
          case 3 then show ?thesis by simp
        qed
      next
        assume "c \<in> ?R"
        then consider "c \<in> (\<Inter>df \<in> set ?fr. set (labels df))"
          | "c = ''AGE''" "\<exists>df \<in> set ?fr. ''AGE'' \<in> set (labels df)" | "c = ''source_file''"
          by (auto split: if_splits)
        then show "c \<in> ?L"
        proof cases
          case 1
          then have "c \<in> final_set ?fr" "c \<in> set (labels d)"
            using d by (auto simp: final_set_def shared_cols_mem)
          with d show ?thesis by blast
        next
          case 2 then show ?thesis by (auto simp: final_set_def)
        next
          case 3
          with d src[OF d] show ?thesis by (auto simp: final_set_def)
        qed
      qed
    qed
    with c False show ?thesis by simp
  qed
qed

theorem loader_columns_witness:
  "\<exists>out. snd (combine_common_columns_with_age sorted_list_of_set two_files) = Inr out \<and>
     set (labels out) = {''AGE'', ''ALCEVER'', ''IRSEX'', ''source_file''}"
proof -
  have ne: "frames_read two_files \<noteq> []" by (simp add: frames_read_two)
  note t = loader_columns[OF set_list_ok_sorted ne]
  from t[THEN conjunct1, THEN mp, OF distinct_two] obtain out where
    out: "snd (combine_common_columns_with_age sorted_list_of_set two_files) = Inr out" ..
  have s: "(\<Inter>df \<in> set (frames_read two_files). set (labels df))
        \<union> (if \<exists>df \<in> set (frames_read two_files). ''AGE'' \<in> set (labels df) then {''AGE''} else {})
        \<union> {''source_file''} = {''AGE'', ''ALCEVER'', ''IRSEX'', ''source_file''}"
    by (auto simp: frames_read_two harmonise_2022 harmonise_old)
  have nz: "shared_cols (frames_read two_files) \<noteq> {}" by (simp add: shared_cols_two)
  from t[THEN conjunct2, THEN spec, THEN mp, OF out]
  have "set (labels out) = (\<Inter>df \<in> set (frames_read two_files). set (labels df))
        \<union> (if \<exists>df \<in> set (frames_read two_files). ''AGE'' \<in> set (labels df) then {''AGE''} else {})
        \<union> {''source_file''}"
    by (simp only: nz if_False)
  then have "set (labels out) = {''AGE'', ''ALCEVER'', ''IRSEX'', ''source_file''}"
    by (simp only: s)
  with out show ?thesis by (intro exI[of _ out] conjI)
qed

section \<open>Provenance\<close>

text \<open>
  Claim C8. Whenever the loader returns a table, which it does whenever no frame carries a
  label twice after the renaming, the \<open>source_file\<close> cells of its rows are, row by row and
  in order, the names of the files the rows came from (the empty table has no rows).
  Neither filter changes this: every row that \<open>filter_age\<close> returns, on the loader's frame
  or on any table, is a row of its input, and every row that \<open>filter_cols\<close> returns is an
  input row cut down to the kept columns, with its \<open>source_file\<close> cell as it was.
\<close>

theorem provenance_is_file_name:
  assumes "set_list_ok set_list"
  shows "((\<forall>fr \<in> set (frames_read entries). distinct (labels fr)) \<longrightarrow>
            (\<exists>out. snd (combine_common_columns_with_age set_list entries) = Inr out))
     \<and> (\<forall>out. snd (combine_common_columns_with_age set_list entries) = Inr out \<longrightarrow>
           map (\<lambda>r. r ''source_file'') (rows (table_of out))
             = (if frames_read entries = [] \<or> shared_cols (frames_read entries) = {} then []
                else provenance entries))
     \<and> (\<forall>fr out. filter_age_frame fr = Inr out \<longrightarrow> (\<forall>r \<in> set (rows out). r \<in> set (rows (table_of fr))))
     \<and> (\<forall>df out. filter_age df = Inr out \<longrightarrow> (\<forall>r \<in> set (rows out). r \<in> set (rows df)))
     \<and> (\<forall>df out. filter_cols df = Inr out \<longrightarrow>
           rows out = map (kept_row df) (filter alcever_1_or_2 (rows df))
           \<and> (\<forall>r. kept_row df r ''source_file'' = r ''source_file''))"
proof -
  have age: "r \<in> set (rows df)" if a: "filter_age df = Inr out" and r: "r \<in> set (rows out)" for df out r
  proof -
    from filter_age_Inr[OF a] have "filter_age df = Inr \<lparr>cols = cols df,
        rows = filter (\<lambda>r. recent r \<and> age_within 4 7 r) (rows df)
             @ filter (\<lambda>r. \<not> recent r \<and> age_within 7 13 r) (rows df)\<rparr>"
      by (intro filter_age_numeric) simp_all
    with a r show ?thesis by auto
  qed
  show ?thesis
  proof (intro conjI allI impI ballI)
    assume "\<forall>fr \<in> set (frames_read entries). distinct (labels fr)"
    then show "\<exists>out. snd (combine_common_columns_with_age set_list entries) = Inr out"
      using loader_returns[OF assms] by blast
  next
    fix out
    assume out: "snd (combine_common_columns_with_age set_list entries) = Inr out"
    let ?fr = "frames_read entries"
    show "map (\<lambda>r. r ''source_file'') (rows (table_of out))
             = (if ?fr = [] \<or> shared_cols ?fr = {} then [] else provenance entries)"
    proof (cases "?fr = [] \<or> shared_cols ?fr = {}")
      case True
      with out have "out = empty_frame" by (simp add: loader_recovers)
      with True show ?thesis by (simp add: empty_frame_def table_of_def)
    next
      case False
      then have ne: "?fr \<noteq> []" and sh: "shared_cols ?fr \<noteq> {}" by auto
      note r = loader_output(3)[OF assms ne sh out]
      have "map (\<lambda>r. r ''source_file'') (rows (table_of out))
          = concat (map (\<lambda>df. map (\<lambda>r. r ''source_file'') (projected_rows ?fr df)) ?fr)"
        by (simp add: r map_concat comp_def)
      also have "\<dots> = concat (map (\<lambda>df. map (\<lambda>r. r ''source_file'') (rows (table_of df))) ?fr)"
        by (rule arg_cong[where f = concat], rule map_cong[OF refl])
           (simp add: projected_rows_source frames_read_source)
      also have "\<dots> = provenance entries" by (rule frames_read_provenance)
      finally show ?thesis using False by simp
    qed
  next
    fix fr out r
    assume "filter_age_frame fr = Inr out" and "r \<in> set (rows out)"
    then show "r \<in> set (rows (table_of fr))"
      using age filter_age_frame_Inr by blast
  next
    fix df out r
    assume "filter_age df = Inr out" and "r \<in> set (rows out)"
    then show "r \<in> set (rows df)" by (rule age)
  next
    fix df out
    assume a: "filter_cols df = Inr out"
    show "rows out = map (kept_row df) (filter alcever_1_or_2 (rows df))"
      using a by (rule filter_cols_Inr)
    show "kept_row df r ''source_file'' = r ''source_file''" for r
      using filter_cols_Inr(1)[OF a] by (rule kept_row_source_file)
  qed
qed

theorem provenance_is_file_name_witness:
  "(\<exists>out. snd (combine_common_columns_with_age sorted_list_of_set three_files) = Inr out
            \<and> map (\<lambda>r. r ''source_file'') (rows (table_of out)) = [Str ''2022.txt'', Str ''old.txt''])
     \<and> filter_age survey = Inr survey_aged
     \<and> row_2022_age5 \<in> set (rows survey) \<and> row_2019_age9 \<in> set (rows survey)
     \<and> filter_cols survey_aged = Inr survey_final
     \<and> rows survey_final = map (kept_row survey_aged) (filter alcever_1_or_2 (rows survey_aged))
     \<and> (\<forall>r. kept_row survey_aged r ''source_file'' = r ''source_file'')"
proof -
  have p: "provenance three_files = [Str ''2022.txt'', Str ''old.txt'']"
    by (simp add: three_files_def selected_examples file_2022_def file_old_def)
  have n: "\<not> (frames_read three_files = [] \<or> shared_cols (frames_read three_files) = {})"
    by (simp add: shared_cols_three) (simp add: frames_read_three)
  note t = provenance_is_file_name[OF set_list_ok_sorted, of three_files]
  from t distinct_three obtain out where
    out: "snd (combine_common_columns_with_age sorted_list_of_set three_files) = Inr out" by blast
  from t out have "map (\<lambda>r. r ''source_file'') (rows (table_of out))
      = (if frames_read three_files = [] \<or> shared_cols (frames_read three_files) = {} then []
         else provenance three_files)"
    by blast
  with n p have "map (\<lambda>r. r ''source_file'') (rows (table_of out)) = [Str ''2022.txt'', Str ''old.txt'']"
    by simp
  with out have a: "\<exists>out. snd (combine_common_columns_with_age sorted_list_of_set three_files) = Inr out
            \<and> map (\<lambda>r. r ''source_file'') (rows (table_of out)) = [Str ''2022.txt'', Str ''old.txt'']"
    by (intro exI[of _ out] conjI)
  from t have "\<forall>r \<in> set (rows survey_aged). r \<in> set (rows survey)"
    using filter_age_survey by blast
  then have b: "row_2022_age5 \<in> set (rows survey) \<and> row_2019_age9 \<in> set (rows survey)"
    by (simp add: survey_aged_def)
  from t have c: "rows survey_final = map (kept_row survey_aged) (filter alcever_1_or_2 (rows survey_aged))
      \<and> (\<forall>r. kept_row survey_aged r ''source_file'' = r ''source_file'')"
    using filter_cols_survey_aged by blast
  from a b c filter_age_survey filter_cols_survey_aged show ?thesis by blast
qed

section \<open>The scenario of two files\<close>

text \<open>
  Claim C9. On the directory that holds \<open>2022.txt\<close> (columns \<open>AGE2\<close>, \<open>ALCEVER\<close>,
  \<open>IRSEX\<close>; one row 5, 1, 2) and \<open>old.txt\<close> (columns \<open>AGE3\<close>, \<open>ALCEVER\<close>, \<open>IRSEX\<close>; one
  row 9, 2, 1), listed in either order: both frames get the column \<open>AGE\<close> in place of
  their alias; the loader prints nothing and returns the two rows under the columns
  \<open>ALCEVER\<close>, \<open>IRSEX\<close>, \<open>AGE\<close>, \<open>source_file\<close>, each once; the age filter keeps both rows,
  the row of 2022 first; the column/value filter keeps both rows and adds \<open>year\<close>, which
  is the string \<open>2022\<close> on the first row and missing on the second.
\<close>

theorem two_files_pipeline:
  assumes ok: "set_list_ok set_list" and es: "entries = two_files \<or> entries = rev two_files"
  shows "\<exists>loaded aged final.
      (\<forall>df \<in> set (frames_read entries). labels df = [''AGE'', ''ALCEVER'', ''IRSEX'', ''source_file''])
    \<and> combine_common_columns_with_age set_list entries = ([], Inr loaded)
    \<and> set (labels loaded) = {''ALCEVER'', ''IRSEX'', ''AGE'', ''source_file''}
    \<and> distinct (labels loaded)
    \<and> set (rows (table_of loaded)) = {harmonised_2022, harmonised_old}
    \<and> length (rows (table_of loaded)) = 2
    \<and> filter_age_frame loaded = Inr aged
    \<and> filter_age (table_of loaded) = Inr aged
    \<and> rows aged = [harmonised_2022, harmonised_old]
    \<and> filter_cols aged = Inr final
    \<and> preprocess_data set_list entries = ([], Inr final)
    \<and> set (cols final) = {''ALCEVER'', ''IRSEX'', ''AGE'', ''source_file'', ''year''}
    \<and> map (\<lambda>r. map r [''AGE'', ''ALCEVER'', ''IRSEX'', ''source_file'', ''year'']) (rows final)
        = [final_cells_2022, final_cells_old]"
proof -
  let ?A = "\<lparr>labels = [''AGE'', ''ALCEVER'', ''IRSEX'', ''source_file''], lines = [line_2022]\<rparr>"
  let ?B = "\<lparr>labels = [''AGE'', ''ALCEVER'', ''IRSEX'', ''source_file''], lines = [line_old]\<rparr>"
  let ?fr = "frames_read entries"
  have fr: "?fr = [?A, ?B] \<or> ?fr = [?B, ?A]"
    using es by (auto simp: two_files_def selected_examples harmonise_2022 harmonise_old)
  then have ne: "?fr \<noteq> []" by auto
  have renamed: "\<forall>df \<in> set ?fr. labels df = [''AGE'', ''ALCEVER'', ''IRSEX'', ''source_file'']"
    using fr by auto
  then have dis: "\<forall>df \<in> set ?fr. distinct (labels df)" by simp
  have sh: "shared_cols ?fr = {''AGE'', ''ALCEVER'', ''IRSEX''}"
    using fr by (auto simp: shared_cols_def)
  then have sh0: "shared_cols ?fr \<noteq> {}" by simp
  have fs: "final_set ?fr = {''AGE'', ''ALCEVER'', ''IRSEX'', ''source_file''}"
    by (auto simp: final_set_def sh)
  have fl: "failures entries = []"
    using es by (auto simp: two_files_def)
  from loader_returns[OF ok dis] obtain loaded where
    out: "snd (combine_common_columns_with_age set_list entries) = Inr loaded"
    and dl: "distinct (labels loaded)" by blast
  note lo = loader_output[OF ok ne sh0 out]
  have c': "set (labels loaded) = {''ALCEVER'', ''IRSEX'', ''AGE'', ''source_file''}"
    unfolding lo(2) fs using fr by auto
  have cc: "cols (table_of loaded) = labels loaded" by (simp add: table_of_def)
  have r': "rows (table_of loaded) = [harmonised_2022, harmonised_old]
      \<or> rows (table_of loaded) = [harmonised_old, harmonised_2022]"
    unfolding lo(3) using fr projected_harmonised[OF fs] by auto
  have rec: "recent harmonised_2022" "\<not> recent harmonised_old"
    by (simp_all add: recent_def str_contains_years_def harmonised_cells)
  have ag: "age_within 4 7 harmonised_2022" "age_within 7 13 harmonised_old"
    by (simp_all add: age_within_def harmonised_cells)
  have "filter_age (table_of loaded) = Inr \<lparr>cols = cols (table_of loaded),
      rows = filter (\<lambda>r. recent r \<and> age_within 4 7 r) (rows (table_of loaded))
           @ filter (\<lambda>r. \<not> recent r \<and> age_within 7 13 r) (rows (table_of loaded))\<rparr>"
    using r' by (intro filter_age_numeric) (auto simp: cc c' harmonised_cells)
  also have "filter (\<lambda>r. recent r \<and> age_within 4 7 r) (rows (table_of loaded))
           @ filter (\<lambda>r. \<not> recent r \<and> age_within 7 13 r) (rows (table_of loaded))
         = [harmonised_2022, harmonised_old]"
    using r' rec ag by auto
  finally have fa: "filter_age (table_of loaded)
      = Inr \<lparr>cols = cols (table_of loaded), rows = [harmonised_2022, harmonised_old]\<rparr>"
    (is "_ = Inr ?aged") .
  have faf: "filter_age_frame loaded = Inr ?aged"
    by (simp only: filter_age_frame_distinct[OF dl] fa)
  have "\<exists>final. filter_cols ?aged = Inr final"
    by (rule filter_cols_returns) (simp_all add: cc c' str_accessor_ok_def harmonised_cells)
  then obtain final where fc: "filter_cols ?aged = Inr final" ..
  have cf: "set (cols final) = {''ALCEVER'', ''IRSEX'', ''AGE'', ''source_file'', ''year''}"
    unfolding filter_cols_Inr(3)[OF fc]
    using age_irsex_prefix alcever_prefix source_file_prefix by (auto simp: cc c')
  have al: "alcever_1_or_2 harmonised_2022" "alcever_1_or_2 harmonised_old"
    by (simp_all add: alcever_1_or_2_def harmonised_cells)
  have rf: "rows final = [kept_row ?aged harmonised_2022, kept_row ?aged harmonised_old]"
    unfolding filter_cols_Inr(4)[OF fc] using al by simp
  have cells: "map (\<lambda>r. map r [''AGE'', ''ALCEVER'', ''IRSEX'', ''source_file'', ''year'']) (rows final)
        = [final_cells_2022, final_cells_old]"
    unfolding rf using age_irsex_prefix alcever_prefix source_file_prefix
    by (simp add: kept_row_def cc c' harmonised_cells str_extract_year_def is_digit_def
        final_cells_2022_def final_cells_old_def)
  have pp: "preprocess_data set_list entries = ([], Inr final)"
    by (simp add: preprocess_data_def lo(1) fl faf fc)
  have "set (rows (table_of loaded)) = {harmonised_2022, harmonised_old}"
    "length (rows (table_of loaded)) = 2"
    using r' by auto
  with renamed lo(1) fl c' dl faf fa fc pp cf cells show ?thesis by force
qed

theorem two_files_pipeline_witness:
  "\<exists>loaded aged final.
      (\<forall>df \<in> set (frames_read two_files). labels df = [''AGE'', ''ALCEVER'', ''IRSEX'', ''source_file''])
    \<and> combine_common_columns_with_age sorted_list_of_set two_files = ([], Inr loaded)
    \<and> set (labels loaded) = {''ALCEVER'', ''IRSEX'', ''AGE'', ''source_file''}
    \<and> distinct (labels loaded)
    \<and> set (rows (table_of loaded)) = {harmonised_2022, harmonised_old}
    \<and> length (rows (table_of loaded)) = 2
    \<and> filter_age_frame loaded = Inr aged
    \<and> filter_age (table_of loaded) = Inr aged
    \<and> rows aged = [harmonised_2022, harmonised_old]
    \<and> filter_cols aged = Inr final
    \<and> preprocess_data sorted_list_of_set two_files = ([], Inr final)
    \<and> set (cols final) = {''ALCEVER'', ''IRSEX'', ''AGE'', ''source_file'', ''year''}
    \<and> map (\<lambda>r. map r [''AGE'', ''ALCEVER'', ''IRSEX'', ''source_file'', ''year'']) (rows final)
        = [final_cells_2022, final_cells_old]"
  using two_files_pipeline[OF set_list_ok_sorted, of two_files] by simp


end
